theory Spec2Isabelle
  imports Main "HOL-Library.Sublist" "HOL-Library.AList"
begin

section \<open>Configuration tree (core/config.py)\<close>

text \<open>
  The configuration is the value produced by \<^verbatim>\<open>json.load\<close>: a tree of Python
  objects. A dict keeps its items in insertion order and is modelled as an association
  list read with \<open>map_of\<close>. Numbers are opaque to every function modelled here.
\<close>

datatype json =
    JNull
  | JBool bool
  | JNum int
  | JStr string
  | JList "json list"
  | JDict "(string \<times> json) list"

datatype error = TypeError | KeyError | IndexError | OSError

text \<open>\<^verbatim>\<open>str.split(".")\<close>: the result is never empty; \<^verbatim>\<open>"".split(".") == [""]\<close>.\<close>

fun split_dot :: "string \<Rightarrow> string list" where
  "split_dot [] = [[]]"
| "split_dot (c # cs) =
     (if c = CHR ''.'' then [] # split_dot cs
      else (case split_dot cs of
              w # ws \<Rightarrow> (c # w) # ws
            | [] \<Rightarrow> [[c]]))"

text \<open>
  \<^verbatim>\<open>
  def get(self, key_path, default=None):
      keys = key_path.split(".")
      value = self.config
      for key in keys:
          if isinstance(value, dict) and key in value:
              value = value[key]
          else:
              return default
      return value
  \<close>
\<close>

fun get_loop :: "json \<Rightarrow> string list \<Rightarrow> json \<Rightarrow> json" where
  "get_loop value [] dflt = value"
| "get_loop value (key # keys) dflt =
     (case value of
        JDict items \<Rightarrow>
          (case map_of items key of
             Some v \<Rightarrow> get_loop v keys dflt
           | None \<Rightarrow> dflt)
      | _ \<Rightarrow> dflt)"

definition get :: "json \<Rightarrow> string \<Rightarrow> json \<Rightarrow> json" where
  "get config key_path dflt = get_loop config (split_dot key_path) dflt"

text \<open>
  The walk of the specification: \<open>reaches c ks v\<close> says that following the keys \<open>ks\<close>
  from \<open>c\<close>, each step through a mapping that has the key, arrives at the stored value \<open>v\<close>.
\<close>

inductive reaches :: "json \<Rightarrow> string list \<Rightarrow> json \<Rightarrow> bool" where
  reaches_Nil: "reaches c [] c"
| reaches_Cons: "map_of items k = Some u \<Longrightarrow> reaches u ks v \<Longrightarrow> reaches (JDict items) (k # ks) v"

text \<open>\<open>has_key u k\<close>: the value \<open>u\<close> is a mapping and \<open>k\<close> is one of its keys.\<close>

definition has_key :: "json \<Rightarrow> string \<Rightarrow> bool" where
  "has_key u k = (case u of JDict items \<Rightarrow> map_of items k \<noteq> None | _ \<Rightarrow> False)"

subsection \<open>Strings\<close>

text \<open>\<^verbatim>\<open>s.startswith(p)\<close> and \<^verbatim>\<open>s.endswith(p)\<close>.\<close>

definition startswith :: "string \<Rightarrow> string \<Rightarrow> bool" where
  "startswith s p = prefix p s"

definition endswith :: "string \<Rightarrow> string \<Rightarrow> bool" where
  "endswith s p = suffix p s"

subsection \<open>Environment interpolation\<close>

text \<open>The process environment; \<^verbatim>\<open>os.environ.get(name, "")\<close> reads it.\<close>

type_synonym environ = "string \<rightharpoonup> string"

definition environ_get :: "environ \<Rightarrow> string \<Rightarrow> string \<Rightarrow> string" where
  "environ_get environ name dflt = (case environ name of Some v \<Rightarrow> v | None \<Rightarrow> dflt)"

text \<open>
  \<^verbatim>\<open>
  def _process_env_vars(self, config_dict):
      for key, value in config_dict.items():
          if isinstance(value, dict):
              self._process_env_vars(value)
          elif isinstance(value, str) and value.startswith("${") and value.endswith("}"):
              env_var = value[2:-1]
              config_dict[key] = os.environ.get(env_var, "")
  \<close>
  The dict is updated in place, key by key; the model returns the updated items.
  \<^verbatim>\<open>value[2:-1]\<close> drops the last character and then the first two.
\<close>

function process_env_vars :: "environ \<Rightarrow> (string \<times> json) list \<Rightarrow> (string \<times> json) list" where
  "process_env_vars environ [] = []"
| "process_env_vars environ ((key, value) # rest) =
     (key,
      (case value of
         JDict d \<Rightarrow> JDict (process_env_vars environ d)
       | JStr s \<Rightarrow>
           (if startswith s ''${'' \<and> endswith s ''}''
            then JStr (environ_get environ (drop 2 (butlast s)) [])
            else JStr s)
       | _ \<Rightarrow> value))
     # process_env_vars environ rest"
  by pat_completeness auto
termination
  by (relation "measure (\<lambda>(environ, items). size_list (size_prod (\<lambda>_. 0) size) items)") auto

text \<open>
  \<^verbatim>\<open>
  def set(self, key_path, value):
      keys = key_path.split(".")
      config = self.config
      for key in keys[:-1]:
          if key not in config:
              config[key] = {}
          config = config[key]
      config[keys[-1]] = value
  \<close>
  The walk raises \<^verbatim>\<open>TypeError\<close> at the first value on the way that is not a dict
  (a list or a string cannot be indexed or assigned by a string key, and \<^verbatim>\<open>in\<close> is not
  defined on a number, a boolean or \<^verbatim>\<open>None\<close>). Every key before that value was
  present, so nothing has been written when the exception is raised.
  \<open>AList.update\<close> overwrites a present key in place and appends an absent one, as a
  Python dict does.
\<close>

fun set_walk :: "json \<Rightarrow> string list \<Rightarrow> json \<Rightarrow> error + json" where
  "set_walk config [] value = Inl IndexError"
| "set_walk (JDict items) [key] value = Inr (JDict (AList.update key value items))"
| "set_walk (JDict items) (key # keys) value =
     (let child = (case map_of items key of None \<Rightarrow> JDict [] | Some c \<Rightarrow> c)
      in case set_walk child keys value of
           Inl e \<Rightarrow> Inl e
         | Inr child' \<Rightarrow> Inr (JDict (AList.update key child' items)))"
| "set_walk config (key # keys) value = Inl TypeError"

definition set_config :: "json \<Rightarrow> string \<Rightarrow> json \<Rightarrow> error + json" where
  "set_config config key_path value = set_walk config (split_dot key_path) value"

definition default_config :: json where
  "default_config =
     JDict [(''server'', JDict [(''name'', JStr ''template-mcp''),
                               (''transport'', JStr ''stdio''),
                               (''log_level'', JStr ''info''),
                               (''debug'', JBool True)]),
            (''plugins'', JDict [(''directories'',
                                   JDict [(''resources'', JStr ''plugins/resources''),
                                          (''prompts'', JStr ''plugins/prompts''),
                                          (''tools'', JStr ''plugins/tools''),
                                          (''sampling'', JStr ''plugins/sampling'')]),
                                (''hot_reload'', JBool False),
                                (''disabled'', JList [])])]"

text \<open>
  \<^verbatim>\<open>
  def load_config(self):
      try:
          with open(self.config_path, "r", encoding="utf-8") as f:
              self.config = json.load(f)
          self._process_env_vars(self.config)
          log_level = self.get("server.log_level", "info").upper()
          logging.getLogger().setLevel(getattr(logging, log_level))
      except Exception as e:
          self.config = self._get_default_config()
  \<close>
  \<open>parsed\<close> is the outcome of opening and parsing the file. \<open>level_ok\<close> stands for the
  standard \<^verbatim>\<open>logging\<close> module: whether \<^verbatim>\<open>.upper()\<close>, \<^verbatim>\<open>getattr\<close> and
  \<^verbatim>\<open>setLevel\<close> accept the configured value. A parsed document that is not a dict has
  no \<^verbatim>\<open>items()\<close>, which raises.
\<close>

definition load_config :: "(error + json) \<Rightarrow> environ \<Rightarrow> (json \<Rightarrow> bool) \<Rightarrow> json" where
  "load_config parsed environ level_ok =
     (case parsed of
        Inl e \<Rightarrow> default_config
      | Inr (JDict items) \<Rightarrow>
          (let config = JDict (process_env_vars environ items)
           in if level_ok (get config ''server.log_level'' (JStr ''info''))
              then config else default_config)
      | Inr _ \<Rightarrow> default_config)"

text \<open>\<^verbatim>\<open>get_plugin_directory\<close>: \<^verbatim>\<open>self.get(f"plugins.directories.{plugin_type}", f"plugins/{plugin_type}")\<close>.\<close>

definition get_plugin_directory :: "json \<Rightarrow> string \<Rightarrow> json" where
  "get_plugin_directory config plugin_type =
     get config (''plugins.directories.'' @ plugin_type) (JStr (''plugins/'' @ plugin_type))"

text \<open>Python's \<^verbatim>\<open>needle in haystack\<close> for two strings: a contiguous substring.\<close>

fun str_contains :: "string \<Rightarrow> string \<Rightarrow> bool" where
  "str_contains [] needle = (needle = [])"
| "str_contains (c # cs) needle = (prefix needle (c # cs) \<or> str_contains cs needle)"

text \<open>
  \<^verbatim>\<open>
  def is_plugin_disabled(self, plugin_id):
      disabled = self.get("plugins.disabled", [])
      return plugin_id in disabled
  \<close>
  \<^verbatim>\<open>in\<close> is membership in a list, key membership in a dict, the substring test on a
  string, and raises \<^verbatim>\<open>TypeError\<close> on a number, a boolean or \<^verbatim>\<open>None\<close>.
\<close>

definition is_plugin_disabled :: "json \<Rightarrow> string \<Rightarrow> error + bool" where
  "is_plugin_disabled config plugin_id =
     (case get config ''plugins.disabled'' (JList []) of
        JList xs \<Rightarrow> Inr (JStr plugin_id \<in> set xs)
      | JDict items \<Rightarrow> Inr (map_of items plugin_id \<noteq> None)
      | JStr s \<Rightarrow> Inr (str_contains s plugin_id)
      | _ \<Rightarrow> Inl TypeError)"

text \<open>
  The body of the loop of \<^verbatim>\<open>_process_env_vars\<close> for the value stored under one key.
\<close>

definition process_value :: "environ \<Rightarrow> json \<Rightarrow> json" where
  "process_value environ val =
     (case val of
        JDict d \<Rightarrow> JDict (process_env_vars environ d)
      | JStr s \<Rightarrow>
          (if startswith s ''${'' \<and> endswith s ''}''
           then JStr (environ_get environ (drop 2 (butlast s)) [])
           else JStr s)
      | _ \<Rightarrow> val)"

text \<open>The exact form \<^verbatim>\<open>${NAME}\<close> of the specification.\<close>

definition exact_form :: "string \<Rightarrow> string \<Rightarrow> bool" where
  "exact_form s name = (s = ''${'' @ name @ ''}'')"

section \<open>Plugin loader (core/plugin_loader.py)\<close>

subsection \<open>Modules, the interpreter and the operating system\<close>

text \<open>
  A plugin module is known to the loader through two optional attributes, \<^verbatim>\<open>setup\<close> and
  \<^verbatim>\<open>teardown\<close>: absent, or present and, when called, returning or raising an
  \<^verbatim>\<open>Exception\<close>. (An attribute that is not callable raises \<^verbatim>\<open>TypeError\<close> when called.)
  \<open>mod_version\<close> tells apart the modules produced by executing different contents of a file.
\<close>

datatype hook = Returns | Raises

record pymodule =
  mod_version :: nat
  mod_setup :: "hook option"
  mod_teardown :: "hook option"

text \<open>
  The outcome of \<^verbatim>\<open>spec_from_file_location\<close>, \<^verbatim>\<open>module_from_spec\<close> and
  \<^verbatim>\<open>exec_module\<close> on a file: no spec for the path, the module body raises (the module
  object exists, partly initialised), or the module is executed.
\<close>

datatype import_result = No_spec | Exec_raises pymodule | Exec_ok pymodule

text \<open>
  The operating system as the loader sees it. A directory comes from the configuration
  and is passed on as the Python object it is; \<^verbatim>\<open>os.path.exists\<close> and \<^verbatim>\<open>os.listdir\<close>
  answer or raise.
\<close>

record os_env =
  path_exists :: "json \<Rightarrow> error + bool"
  listdir :: "json \<Rightarrow> error + string list"
  getmtime :: "string \<Rightarrow> error + int"
  import_file :: "string \<Rightarrow> import_result"

text \<open>\<^verbatim>\<open>os.path.join(directory, filename)\<close> (POSIX); a directory that is not a string raises.\<close>

definition path_join :: "json \<Rightarrow> string \<Rightarrow> error + string" where
  "path_join directory filename =
     (case directory of
        JStr d \<Rightarrow>
          Inr (if startswith filename ''/'' then filename
               else if d = [] \<or> endswith d ''/'' then d @ filename
               else d @ ''/'' @ filename)
      | _ \<Rightarrow> Inl TypeError)"

subsection \<open>Loader state\<close>

datatype call = Setup_call string pymodule | Teardown_call string pymodule

datatype level = DEBUG | INFO | WARNING | ERROR

text \<open>One constructor for each logging call of the loader and of the watcher.\<close>

datatype message =
    Dir_missing json
  | Loading_type string
  | Skip_disabled string
  | Already_loaded string
  | Importing string string
  | Cannot_load_file string
  | Calling_setup string
  | Load_ok string string
  | No_setup string
  | Load_failed string
  | Reload_not_loaded string
  | Unknown_type string
  | Reloaded string
  | Reload_failed string
  | Unload_not_loaded string
  | Unloaded string
  | Unload_failed string
  | Change_detected string
  | New_plugin string string
  | File_check_failed string
  | Cycle_failed

text \<open>
  The three fields of \<^verbatim>\<open>PluginLoader\<close>, the interpreter's \<^verbatim>\<open>sys.modules\<close>, the
  lifecycle calls made so far, in order, and the log.
\<close>

record loader =
  loaded_plugins :: "string \<rightharpoonup> pymodule"
  plugin_paths :: "string \<rightharpoonup> string"
  loaded_modules :: "string set"
  sys_modules :: "string \<rightharpoonup> pymodule"
  calls :: "call list"
  logs :: "(level \<times> message) list"

definition log :: "level \<Rightarrow> message \<Rightarrow> loader \<Rightarrow> loader" where
  "log lv m s = s\<lparr>logs := logs s @ [(lv, m)]\<rparr>"

definition plugin_types :: "string list" where
  "plugin_types = [''resources'', ''prompts'', ''tools'', ''sampling'']"

text \<open>\<^verbatim>\<open>module_name = f"{plugin_type}.{plugin_id}"\<close>\<close>

definition mod_name :: "string \<Rightarrow> string \<Rightarrow> string" where
  "mod_name plugin_type plugin_id = plugin_type @ ''.'' @ plugin_id"

subsection \<open>Loading one file\<close>

text \<open>
  \<^verbatim>\<open>
  def _load_plugin_file(self, plugin_id, file_path, plugin_type):
      try:
          module_name = f"{plugin_type}.{plugin_id}"
          if module_name in self.loaded_modules:
              logger.debug(...)
              return
          logger.debug(...)
          spec = importlib.util.spec_from_file_location(module_name, file_path)
          if spec is None:
              logger.error(...)
              return
          module = importlib.util.module_from_spec(spec)
          sys.modules[module_name] = module
          spec.loader.exec_module(module)
          if hasattr(module, 'setup'):
              logger.debug(...)
              module.setup(self.mcp)
              self.loaded_plugins[plugin_id] = module
              self.plugin_paths[plugin_id] = file_path
              self.loaded_modules.add(module_name)
              logger.info(...)
          else:
              logger.warning(...)
      except Exception as e:
          logger.error(...)
  \<close>
\<close>

definition load_plugin_file :: "os_env \<Rightarrow> loader \<Rightarrow> string \<Rightarrow> string \<Rightarrow> string \<Rightarrow> loader" where
  "load_plugin_file env s plugin_id file_path plugin_type =
     (let name = mod_name plugin_type plugin_id in
      if name \<in> loaded_modules s then log DEBUG (Already_loaded name) s
      else
        (let s1 = log DEBUG (Importing name file_path) s in
         case import_file env file_path of
           No_spec \<Rightarrow> log ERROR (Cannot_load_file file_path) s1
         | Exec_raises m \<Rightarrow>
             log ERROR (Load_failed plugin_id) (s1\<lparr>sys_modules := (sys_modules s1)(name \<mapsto> m)\<rparr>)
         | Exec_ok m \<Rightarrow>
             (let s2 = s1\<lparr>sys_modules := (sys_modules s1)(name \<mapsto> m)\<rparr> in
              case mod_setup m of
                None \<Rightarrow> log WARNING (No_setup plugin_id) s2
              | Some h \<Rightarrow>
                  (let s3 = (log DEBUG (Calling_setup plugin_id) s2)
                              \<lparr>calls := calls s2 @ [Setup_call plugin_id m]\<rparr> in
                   case h of
                     Raises \<Rightarrow> log ERROR (Load_failed plugin_id) s3
                   | Returns \<Rightarrow>
                       log INFO (Load_ok plugin_id plugin_type)
                         (s3\<lparr>loaded_plugins := (loaded_plugins s3)(plugin_id \<mapsto> m),
                             plugin_paths := (plugin_paths s3)(plugin_id \<mapsto> file_path),
                             loaded_modules := insert name (loaded_modules s3)\<rparr>)))))"

subsection \<open>Reload\<close>

text \<open>
  The loop that determines the plugin type from the stored path:
  \<^verbatim>\<open>
  for t in ["resources", "prompts", "tools", "sampling"]:
      if file_path.startswith(config_manager.get_plugin_directory(t)):
          plugin_type = t
          break
  \<close>
  \<^verbatim>\<open>str.startswith\<close> raises \<^verbatim>\<open>TypeError\<close> when the configured directory is not a string.
\<close>

fun type_of_path :: "json \<Rightarrow> string \<Rightarrow> string list \<Rightarrow> error + string option" where
  "type_of_path config file_path [] = Inr None"
| "type_of_path config file_path (t # ts) =
     (case get_plugin_directory config t of
        JStr d \<Rightarrow> if startswith file_path d then Inr (Some t) else type_of_path config file_path ts
      | _ \<Rightarrow> Inl TypeError)"

text \<open>
  \<^verbatim>\<open>
  def reload_plugin(self, plugin_id):
      if plugin_id not in self.loaded_plugins or plugin_id not in self.plugin_paths:
          logger.warning(...)
          return False
      try:
          file_path = self.plugin_paths[plugin_id]
          plugin_type = None
          for t in [...]: ...
          if not plugin_type:
              logger.error(...)
              return False
          module_name = f"{plugin_type}.{plugin_id}"
          if module_name in sys.modules:
              del sys.modules[module_name]
          if plugin_id in self.loaded_plugins:
              del self.loaded_plugins[plugin_id]
          if module_name in self.loaded_modules:
              self.loaded_modules.remove(module_name)
          self._load_plugin_file(plugin_id, file_path, plugin_type)
          logger.info(...)
          return True
      except Exception as e:
          logger.error(...)
          return False
  \<close>
\<close>

definition reload_plugin :: "json \<Rightarrow> os_env \<Rightarrow> loader \<Rightarrow> string \<Rightarrow> loader \<times> bool" where
  "reload_plugin config env s plugin_id =
     (case (loaded_plugins s plugin_id, plugin_paths s plugin_id) of
        (Some old, Some file_path) \<Rightarrow>
          (case type_of_path config file_path plugin_types of
             Inl e \<Rightarrow> (log ERROR (Reload_failed plugin_id) s, False)
           | Inr None \<Rightarrow> (log ERROR (Unknown_type plugin_id) s, False)
           | Inr (Some plugin_type) \<Rightarrow>
               (let name = mod_name plugin_type plugin_id;
                    s1 = s\<lparr>sys_modules := (sys_modules s)(name := None)\<rparr>;
                    s2 = s1\<lparr>loaded_plugins := (loaded_plugins s1)(plugin_id := None)\<rparr>;
                    s3 = s2\<lparr>loaded_modules := loaded_modules s2 - {name}\<rparr>;
                    s4 = load_plugin_file env s3 plugin_id file_path plugin_type
                in (log INFO (Reloaded plugin_id) s4, True)))
      | _ \<Rightarrow> (log WARNING (Reload_not_loaded plugin_id) s, False))"

subsection \<open>Unload\<close>

text \<open>
  \<^verbatim>\<open>
  def unload_plugin(self, plugin_id):
      if plugin_id not in self.loaded_plugins:
          logger.warning(...)
          return False
      try:
          module = self.loaded_plugins[plugin_id]
          if hasattr(module, 'teardown'):
              module.teardown()
          del self.loaded_plugins[plugin_id]
          file_path = self.plugin_paths[plugin_id]
          for t in ["resources", "prompts", "tools", "sampling"]:
              module_name = f"{t}.{plugin_id}"
              if module_name in sys.modules:
                  del sys.modules[module_name]
              if module_name in self.loaded_modules:
                  self.loaded_modules.remove(module_name)
          del self.plugin_paths[plugin_id]
          logger.info(...)
          return True
      except Exception as e:
          logger.error(...)
          return False
  \<close>
  \<^verbatim>\<open>self.plugin_paths[plugin_id]\<close> raises \<^verbatim>\<open>KeyError\<close> when the path is missing.
\<close>

definition forget_module :: "string \<Rightarrow> loader \<Rightarrow> string \<Rightarrow> loader" where
  "forget_module plugin_id s t =
     s\<lparr>sys_modules := (sys_modules s)(mod_name t plugin_id := None),
       loaded_modules := loaded_modules s - {mod_name t plugin_id}\<rparr>"

definition unload_plugin :: "loader \<Rightarrow> string \<Rightarrow> loader \<times> bool" where
  "unload_plugin s plugin_id =
     (case loaded_plugins s plugin_id of
        None \<Rightarrow> (log WARNING (Unload_not_loaded plugin_id) s, False)
      | Some m \<Rightarrow>
          (let s1 = (case mod_teardown m of
                       None \<Rightarrow> s
                     | Some h \<Rightarrow> s\<lparr>calls := calls s @ [Teardown_call plugin_id m]\<rparr>)
           in if mod_teardown m = Some Raises
              then (log ERROR (Unload_failed plugin_id) s1, False)
              else
                (let s2 = s1\<lparr>loaded_plugins := (loaded_plugins s1)(plugin_id := None)\<rparr> in
                 case plugin_paths s2 plugin_id of
                   None \<Rightarrow> (log ERROR (Unload_failed plugin_id) s2, False)
                 | Some file_path \<Rightarrow>
                     (let s3 = foldl (forget_module plugin_id) s2 plugin_types;
                          s4 = s3\<lparr>plugin_paths := (plugin_paths s3)(plugin_id := None)\<rparr>
                      in (log INFO (Unloaded plugin_id) s4, True)))))"

subsection \<open>Directory scan\<close>

text \<open>\<^verbatim>\<open>filename.endswith(".py") and not filename.startswith("__")\<close>, and \<^verbatim>\<open>filename[:-3]\<close>.\<close>

definition is_plugin_file :: "string \<Rightarrow> bool" where
  "is_plugin_file filename = (endswith filename ''.py'' \<and> \<not> startswith filename ''__'')"

definition plugin_id_of :: "string \<Rightarrow> string" where
  "plugin_id_of filename = take (length filename - 3) filename"

text \<open>
  \<^verbatim>\<open>
  def load_plugins_by_type(self, plugin_type):
      directory = config_manager.get_plugin_directory(plugin_type)
      if not os.path.exists(directory):
          logger.warning(...)
          return
      logger.info(...)
      for filename in os.listdir(directory):
          if filename.endswith(".py") and not filename.startswith("__"):
              plugin_id = filename[:-3]
              if config_manager.is_plugin_disabled(plugin_id):
                  logger.info(...)
                  continue
              file_path = os.path.join(directory, filename)
              self._load_plugin_file(plugin_id, file_path, plugin_type)
  \<close>
  Nothing here catches an exception: one raised by \<^verbatim>\<open>os.path.exists\<close>, \<^verbatim>\<open>os.listdir\<close>,
  \<^verbatim>\<open>is_plugin_disabled\<close> or \<^verbatim>\<open>os.path.join\<close> leaves the function, with the loader as it
  is at that moment. The result is the loader and the exception that ended the call, if any.
\<close>

fun scan_files :: "json \<Rightarrow> os_env \<Rightarrow> json \<Rightarrow> string \<Rightarrow> loader \<Rightarrow> string list
    \<Rightarrow> loader \<times> error option" where
  "scan_files config env directory plugin_type s [] = (s, None)"
| "scan_files config env directory plugin_type s (filename # rest) =
     (if is_plugin_file filename then
        (let plugin_id = plugin_id_of filename in
         case is_plugin_disabled config plugin_id of
           Inl e \<Rightarrow> (s, Some e)
         | Inr True \<Rightarrow>
             scan_files config env directory plugin_type (log INFO (Skip_disabled plugin_id) s) rest
         | Inr False \<Rightarrow>
             (case path_join directory filename of
                Inl e \<Rightarrow> (s, Some e)
              | Inr file_path \<Rightarrow>
                  scan_files config env directory plugin_type
                    (load_plugin_file env s plugin_id file_path plugin_type) rest))
      else scan_files config env directory plugin_type s rest)"

definition load_plugins_by_type :: "json \<Rightarrow> os_env \<Rightarrow> loader \<Rightarrow> string \<Rightarrow> loader \<times> error option" where
  "load_plugins_by_type config env s plugin_type =
     (let directory = get_plugin_directory config plugin_type in
      case path_exists env directory of
        Inl e \<Rightarrow> (s, Some e)
      | Inr False \<Rightarrow> (log WARNING (Dir_missing directory) s, None)
      | Inr True \<Rightarrow>
          (let s1 = log INFO (Loading_type plugin_type) s in
           case listdir env directory of
             Inl e \<Rightarrow> (s1, Some e)
           | Inr names \<Rightarrow> scan_files config env directory plugin_type s1 names))"

text \<open>\<^verbatim>\<open>load_all_plugins\<close>: the four types in order; an exception ends the loop.\<close>

fun load_types :: "json \<Rightarrow> os_env \<Rightarrow> loader \<Rightarrow> string list \<Rightarrow> loader \<times> error option" where
  "load_types config env s [] = (s, None)"
| "load_types config env s (t # ts) =
     (case load_plugins_by_type config env s t of
        (s', Some e) \<Rightarrow> (s', Some e)
      | (s', None) \<Rightarrow> load_types config env s' ts)"

definition load_all_plugins :: "json \<Rightarrow> os_env \<Rightarrow> loader \<Rightarrow> loader \<times> error option" where
  "load_all_plugins config env s = load_types config env s plugin_types"

definition new_loader :: loader where
  "new_loader = \<lparr>loaded_plugins = Map.empty, plugin_paths = Map.empty, loaded_modules = {},
                 sys_modules = Map.empty, calls = [], logs = []\<rparr>"

section \<open>Hot-reload watcher (core/server.py)\<close>

text \<open>
  \<^verbatim>\<open>
  async def _watch_files():
      plugin_dirs = [config_manager.get_plugin_directory(t)
                     for t in ["resources", "prompts", "tools", "sampling"]]
      file_mtimes = {}
      while True:
          try:
              for directory in plugin_dirs:
                  if not os.path.exists(directory):
                      continue
                  for filename in os.listdir(directory):
                      if filename.endswith(".py") and not filename.startswith("__"):
                          file_path = os.path.join(directory, filename)
                          plugin_id = filename[:-3]
                          try:
                              mtime = os.path.getmtime(file_path)
                              if file_path not in file_mtimes or file_mtimes[file_path] != mtime:
                                  file_mtimes[file_path] = mtime
                                  if plugin_id in self.plugin_loader.loaded_plugins:
                                      self.plugin_loader.reload_plugin(plugin_id)
                                  else:
                                      plugin_type = None
                                      for t in ["resources", "prompts", "tools", "sampling"]:
                                          if directory == config_manager.get_plugin_directory(t):
                                              plugin_type = t
                                              break
                                      if plugin_type:
                                          self.plugin_loader._load_plugin_file(plugin_id, file_path, plugin_type)
                          except Exception as e:
                              logger.error(...)
          except Exception as e:
              logger.error(...)
          await asyncio.sleep(5)
  \<close>
  The watcher keeps \<^verbatim>\<open>file_mtimes\<close>. \<open>scanned\<close> records the arguments of its
  \<^verbatim>\<open>os.path.exists\<close> calls, in order: the directories it has looked at.

  Two configurations occur. \<^verbatim>\<open>config_manager\<close> in \<^verbatim>\<open>server.py\<close> is that module's global,
  which \<^verbatim>\<open>MCPServer.__init__\<close> rebinds when it is given a configuration path; the loader's
  \<^verbatim>\<open>reload_plugin\<close> reads the global of \<^verbatim>\<open>plugin_loader.py\<close>. They are the parameters
  \<open>server_config\<close> and \<open>loader_config\<close>, equal unless a configuration path was given.
\<close>

record watcher =
  file_mtimes :: "string \<rightharpoonup> int"
  scanned :: "json list"

text \<open>
  The loop that finds the type of a new plugin: the first type whose configured directory
  equals the directory being listed. It runs after \<^verbatim>\<open>os.path.join\<close> has accepted the
  directory, which is therefore a string, equal only to the same string.
\<close>

fun type_of_directory :: "json \<Rightarrow> json \<Rightarrow> string list \<Rightarrow> string option" where
  "type_of_directory config directory [] = None"
| "type_of_directory config directory (t # ts) =
     (if directory = get_plugin_directory config t then Some t
      else type_of_directory config directory ts)"

text \<open>
  One file of a listed directory that passed the name test. \<^verbatim>\<open>os.path.join\<close> is outside
  the inner \<^verbatim>\<open>try\<close>: its exception ends the cycle. Inside the inner \<^verbatim>\<open>try\<close> only
  \<^verbatim>\<open>os.path.getmtime\<close> can raise; \<^verbatim>\<open>reload_plugin\<close> and \<^verbatim>\<open>_load_plugin_file\<close> catch
  everything themselves. The result of \<^verbatim>\<open>reload_plugin\<close> is dropped.
\<close>

definition watch_file :: "json \<Rightarrow> json \<Rightarrow> os_env \<Rightarrow> json \<Rightarrow> string \<Rightarrow> watcher \<times> loader
    \<Rightarrow> (watcher \<times> loader) \<times> error option" where
  "watch_file server_config loader_config env directory filename ws =
     (case ws of (w, s) \<Rightarrow>
      (case path_join directory filename of
         Inl e \<Rightarrow> ((w, s), Some e)
       | Inr file_path \<Rightarrow>
           (let plugin_id = plugin_id_of filename in
            case getmtime env file_path of
              Inl e \<Rightarrow> ((w, log ERROR (File_check_failed file_path) s), None)
            | Inr mtime \<Rightarrow>
                if file_mtimes w file_path \<noteq> Some mtime then
                  (let w' = w\<lparr>file_mtimes := (file_mtimes w)(file_path \<mapsto> mtime)\<rparr> in
                   if loaded_plugins s plugin_id \<noteq> None then
                     ((w', fst (reload_plugin loader_config env
                                  (log INFO (Change_detected plugin_id) s) plugin_id)), None)
                   else
                     (case type_of_directory server_config directory plugin_types of
                        None \<Rightarrow> ((w', s), None)
                      | Some plugin_type \<Rightarrow>
                          ((w', load_plugin_file env
                                  (log INFO (New_plugin plugin_id plugin_type) s)
                                  plugin_id file_path plugin_type), None)))
                else ((w, s), None))))"

text \<open>The loop over the names of one directory.\<close>

fun watch_names :: "json \<Rightarrow> json \<Rightarrow> os_env \<Rightarrow> json \<Rightarrow> string list \<Rightarrow> watcher \<times> loader
    \<Rightarrow> (watcher \<times> loader) \<times> error option" where
  "watch_names server_config loader_config env directory [] ws = (ws, None)"
| "watch_names server_config loader_config env directory (filename # rest) ws =
     (if is_plugin_file filename then
        (case watch_file server_config loader_config env directory filename ws of
           (ws', Some e) \<Rightarrow> (ws', Some e)
         | (ws', None) \<Rightarrow> watch_names server_config loader_config env directory rest ws')
      else watch_names server_config loader_config env directory rest ws)"

text \<open>The loop over \<^verbatim>\<open>plugin_dirs\<close>.\<close>

fun watch_dirs :: "json \<Rightarrow> json \<Rightarrow> os_env \<Rightarrow> json list \<Rightarrow> watcher \<times> loader
    \<Rightarrow> (watcher \<times> loader) \<times> error option" where
  "watch_dirs server_config loader_config env [] ws = (ws, None)"
| "watch_dirs server_config loader_config env (directory # dirs) ws =
     (case ws of (w, s) \<Rightarrow>
      (let w1 = w\<lparr>scanned := scanned w @ [directory]\<rparr> in
       case path_exists env directory of
         Inl e \<Rightarrow> ((w1, s), Some e)
       | Inr False \<Rightarrow> watch_dirs server_config loader_config env dirs (w1, s)
       | Inr True \<Rightarrow>
           (case listdir env directory of
              Inl e \<Rightarrow> ((w1, s), Some e)
            | Inr names \<Rightarrow>
                (case watch_names server_config loader_config env directory names (w1, s) of
                   (ws', Some e) \<Rightarrow> (ws', Some e)
                 | (ws', None) \<Rightarrow> watch_dirs server_config loader_config env dirs ws'))))"

text \<open>One pass of the body of \<^verbatim>\<open>while True\<close>; an exception that ends the pass is logged.\<close>

definition watch_cycle :: "json list \<Rightarrow> json \<times> json \<times> os_env \<Rightarrow> watcher \<times> loader \<Rightarrow> watcher \<times> loader" where
  "watch_cycle plugin_dirs world ws =
     (case world of (server_config, loader_config, env) \<Rightarrow>
      (case watch_dirs server_config loader_config env plugin_dirs ws of
         (ws', None) \<Rightarrow> ws'
       | ((w', s'), Some e) \<Rightarrow> (w', log ERROR Cycle_failed s')))"

text \<open>
  The loop has no exit. Between two passes the task sleeps, and the configuration and the
  file system may change; \<open>worlds\<close> lists what each pass finds (the server's configuration,
  the loader's configuration and the file system), one entry for each pass made so far.
  \<open>watch_files\<close> gives the state after those passes. \<open>plugin_dirs\<close> is computed before
  the loop, from the configuration at the start of the task.
\<close>

fun watch_loop :: "json list \<Rightarrow> (json \<times> json \<times> os_env) list \<Rightarrow> watcher \<times> loader \<Rightarrow> watcher \<times> loader" where
  "watch_loop plugin_dirs [] ws = ws"
| "watch_loop plugin_dirs (world # worlds) ws = watch_loop plugin_dirs worlds (watch_cycle plugin_dirs world ws)"

definition watch_files :: "json \<Rightarrow> (json \<times> json \<times> os_env) list \<Rightarrow> loader \<Rightarrow> watcher \<times> loader" where
  "watch_files start_config worlds s =
     (let plugin_dirs = map (get_plugin_directory start_config) plugin_types
      in watch_loop plugin_dirs worlds (\<lparr>file_mtimes = Map.empty, scanned = []\<rparr>, s))"

subsection \<open>Concrete inputs\<close>

definition sample_config :: json where
  "sample_config = JDict [(''server'', JDict [(''name'', JStr ''demo''), (''port'', JNum 8080)]),
                          (''plugins'', JDict [(''disabled'', JList [JStr ''secret''])])]"

definition interp_items :: "(string \<times> json) list" where
  "interp_items =
     [(''api'', JDict [(''key'', JStr ''${FOO}''),
                      (''hosts'', JList [JStr ''${FOO}'']),
                      (''url'', JStr ''http://${FOO}'')]),
      (''name'', JStr ''plain'')]"

definition foo_environ :: environ where
  "foo_environ = [''FOO'' \<mapsto> ''bar'']"

text \<open>Modules: a well-behaved one, its next version, and ones whose hooks raise.\<close>

definition good_module :: pymodule where
  "good_module = \<lparr>mod_version = 1, mod_setup = Some Returns, mod_teardown = Some Returns\<rparr>"

definition good_module2 :: pymodule where
  "good_module2 = \<lparr>mod_version = 2, mod_setup = Some Returns, mod_teardown = Some Returns\<rparr>"

definition bad_setup_module :: pymodule where
  "bad_setup_module = \<lparr>mod_version = 3, mod_setup = Some Raises, mod_teardown = None\<rparr>"

definition bad_teardown_module :: pymodule where
  "bad_teardown_module = \<lparr>mod_version = 4, mod_setup = Some Returns, mod_teardown = Some Raises\<rparr>"

text \<open>
  A file system whose only plugin directory is \<^verbatim>\<open>plugins/tools\<close>, holding the one file
  \<^verbatim>\<open>foo.py\<close> that executes to the given module.
\<close>

definition tools_env :: "pymodule \<Rightarrow> os_env" where
  "tools_env m =
     \<lparr>path_exists = (\<lambda>d. Inr (d = JStr ''plugins/tools'')),
      listdir = (\<lambda>d. if d = JStr ''plugins/tools'' then Inr [''foo.py''] else Inl OSError),
      getmtime = (\<lambda>p. Inr 1),
      import_file = (\<lambda>p. if p = ''plugins/tools/foo.py'' then Exec_ok m else No_spec)\<rparr>"

text \<open>The loader after the startup scan of that file system, under the default configuration.\<close>

definition foo_loaded :: "pymodule \<Rightarrow> loader" where
  "foo_loaded m = fst (load_all_plugins default_config (tools_env m) new_loader)"

text \<open>The default configuration with \<^verbatim>\<open>foo\<close> on the disabled list and hot reload on.\<close>

definition disabled_config :: json where
  "disabled_config =
     JDict [(''server'', JDict [(''name'', JStr ''template-mcp''),
                               (''transport'', JStr ''stdio''),
                               (''log_level'', JStr ''info''),
                               (''debug'', JBool True)]),
            (''plugins'', JDict [(''directories'',
                                   JDict [(''resources'', JStr ''plugins/resources''),
                                          (''prompts'', JStr ''plugins/prompts''),
                                          (''tools'', JStr ''plugins/tools''),
                                          (''sampling'', JStr ''plugins/sampling'')]),
                                (''hot_reload'', JBool True),
                                (''disabled'', JList [JStr ''foo''])])]"

text \<open>
  The default configuration after \<^verbatim>\<open>set("plugins.directories.tools", "alt/tools")\<close>, and a
  file system in which only \<^verbatim>\<open>alt/tools\<close> exists, holding a valid \<^verbatim>\<open>foo.py\<close>.
\<close>

definition moved_config :: json where
  "moved_config =
     JDict [(''server'', JDict [(''name'', JStr ''template-mcp''),
                               (''transport'', JStr ''stdio''),
                               (''log_level'', JStr ''info''),
                               (''debug'', JBool True)]),
            (''plugins'', JDict [(''directories'',
                                   JDict [(''resources'', JStr ''plugins/resources''),
                                          (''prompts'', JStr ''plugins/prompts''),
                                          (''tools'', JStr ''alt/tools''),
                                          (''sampling'', JStr ''plugins/sampling'')]),
                                (''hot_reload'', JBool False),
                                (''disabled'', JList [])])]"

definition alt_env :: os_env where
  "alt_env =
     \<lparr>path_exists = (\<lambda>d. Inr (d = JStr ''alt/tools'')),
      listdir = (\<lambda>d. if d = JStr ''alt/tools'' then Inr [''foo.py''] else Inl OSError),
      getmtime = (\<lambda>p. Inr 1),
      import_file = (\<lambda>p. if p = ''alt/tools/foo.py'' then Exec_ok good_module else No_spec)\<rparr>"

definition empty_env :: os_env where
  "empty_env =
     \<lparr>path_exists = (\<lambda>d. Inr False),
      listdir = (\<lambda>d. Inl OSError),
      getmtime = (\<lambda>p. Inl OSError),
      import_file = (\<lambda>p. No_spec)\<rparr>"

definition default_dirs :: "json list" where
  "default_dirs = [JStr ''plugins/resources'', JStr ''plugins/prompts'',
                   JStr ''plugins/tools'', JStr ''plugins/sampling'']"

section \<open>Properties\<close>

subsection \<open>Dotted-path lookup\<close>

lemma reaches_get_loop: "reaches c ks v \<Longrightarrow> get_loop c ks d = v"
  by (induction rule: reaches.induct) auto

lemma reaches_functional: "reaches c ks v \<Longrightarrow> reaches c ks w \<Longrightarrow> v = w"
  using reaches_get_loop by metis

lemma get_loop_cases: "reaches c ks (get_loop c ks d) \<or> ((\<nexists>v. reaches c ks v) \<and> get_loop c ks d = d)"
proof (induction ks arbitrary: c)
  case Nil
  show ?case by (simp add: reaches_Nil)
next
  case (Cons k ks)
  show ?case
  proof (cases c)
    case (JDict items)
    show ?thesis
    proof (cases "map_of items k")
      case None
      then have "\<nexists>v. reaches c (k # ks) v"
        using JDict by (auto elim: reaches.cases)
      then show ?thesis using None JDict by simp
    next
      case (Some u)
      from Cons.IH [of u] show ?thesis
      proof
        assume "reaches u ks (get_loop u ks d)"
        then show ?thesis using Some JDict by (auto intro: reaches_Cons)
      next
        assume a: "(\<nexists>v. reaches u ks v) \<and> get_loop u ks d = d"
        then have "\<nexists>v. reaches c (k # ks) v"
          using Some JDict by (auto elim: reaches.cases)
        then show ?thesis using a Some JDict by simp
      qed
    qed
  qed (auto elim: reaches.cases)
qed

lemma stuck_iff:
  "(\<nexists>v. reaches c ks v) \<longleftrightarrow>
   (\<exists>i<length ks. \<exists>u. reaches c (take i ks) u \<and> \<not> has_key u (ks ! i))"
proof (induction ks arbitrary: c)
  case Nil
  show ?case by (auto intro: reaches_Nil)
next
  case (Cons k ks)
  show ?case
  proof (cases "has_key c k")
    case False
    then have "\<nexists>v. reaches c (k # ks) v"
      by (auto simp: has_key_def elim: reaches.cases)
    moreover have "reaches c (take 0 (k # ks)) c \<and> \<not> has_key c ((k # ks) ! 0)"
      using False by (simp add: reaches_Nil)
    ultimately show ?thesis by blast
  next
    case True
    then obtain items u where c: "c = JDict items" and u: "map_of items k = Some u"
      by (auto simp: has_key_def split: json.splits)
    have step: "\<And>js w. reaches c (k # js) w \<longleftrightarrow> reaches u js w"
      using c u by (auto elim: reaches.cases intro: reaches_Cons)
    have "(\<nexists>v. reaches c (k # ks) v) \<longleftrightarrow> (\<nexists>v. reaches u ks v)"
      by (simp add: step)
    also have "\<dots> \<longleftrightarrow> (\<exists>i<length ks. \<exists>w. reaches u (take i ks) w \<and> \<not> has_key w (ks ! i))"
      by (rule Cons.IH)
    also have "\<dots> \<longleftrightarrow> (\<exists>i<length (k # ks). \<exists>w. reaches c (take i (k # ks)) w \<and> \<not> has_key w ((k # ks) ! i))"
    proof
      assume "\<exists>i<length ks. \<exists>w. reaches u (take i ks) w \<and> \<not> has_key w (ks ! i)"
      then obtain i w where "i < length ks" "reaches u (take i ks) w" "\<not> has_key w (ks ! i)" by blast
      then have "Suc i < length (k # ks) \<and> reaches c (take (Suc i) (k # ks)) w \<and> \<not> has_key w ((k # ks) ! Suc i)"
        by (simp add: step)
      then show "\<exists>i<length (k # ks). \<exists>w. reaches c (take i (k # ks)) w \<and> \<not> has_key w ((k # ks) ! i)"
        by blast
    next
      assume "\<exists>i<length (k # ks). \<exists>w. reaches c (take i (k # ks)) w \<and> \<not> has_key w ((k # ks) ! i)"
      then obtain i w where i: "i < length (k # ks)" "reaches c (take i (k # ks)) w" "\<not> has_key w ((k # ks) ! i)" by blast
      show "\<exists>i<length ks. \<exists>w. reaches u (take i ks) w \<and> \<not> has_key w (ks ! i)"
      proof (cases i)
        case 0
        with i have "w = c" by (auto elim: reaches.cases)
        with i 0 True show ?thesis by simp
      next
        case (Suc j)
        with i have "j < length ks \<and> reaches u (take j ks) w \<and> \<not> has_key w (ks ! j)"
          by (simp add: step)
        then show ?thesis by blast
      qed
    qed
    finally show ?thesis .
  qed
qed

text \<open>
  Claim C6. For every configuration tree, dotted path and default \<open>d\<close>: when the walk along
  the path gets stuck, that is, after some proper prefix of the keys it stands at a value
  that is not a mapping or is a mapping without the next key, \<open>get\<close> returns \<open>d\<close>;
  otherwise the whole path leads to a stored value and \<open>get\<close> returns that value.
\<close>

theorem get_default_or_stored:
  "((\<exists>i<length (split_dot p). \<exists>u. reaches cfg (take i (split_dot p)) u \<and> \<not> has_key u (split_dot p ! i))
      \<longrightarrow> get cfg p d = d)
   \<and> ((\<nexists>i. i < length (split_dot p) \<and> (\<exists>u. reaches cfg (take i (split_dot p)) u \<and> \<not> has_key u (split_dot p ! i)))
      \<longrightarrow> (\<exists>v. reaches cfg (split_dot p) v \<and> get cfg p d = v))"
proof -
  let ?ks = "split_dot p"
  let ?stuck = "\<exists>i<length ?ks. \<exists>u. reaches cfg (take i ?ks) u \<and> \<not> has_key u (?ks ! i)"
  have iff: "(\<nexists>v. reaches cfg ?ks v) \<longleftrightarrow> ?stuck" by (rule stuck_iff)
  have a: "?stuck \<longrightarrow> get cfg p d = d"
    using iff get_loop_cases [of cfg ?ks d] by (auto simp: get_def)
  have b: "\<not> ?stuck \<longrightarrow> (\<exists>v. reaches cfg ?ks v \<and> get cfg p d = v)"
    using iff reaches_get_loop [of cfg ?ks _ d] by (auto simp: get_def)
  from a b show ?thesis by blast
qed

lemma split_ex: "split_dot ''server.name'' = [''server'', ''name'']" "split_dot ''server.port.x'' = [''server'', ''port'', ''x'']"
  by simp_all

text \<open>
  On the sample tree, \<^verbatim>\<open>server.port\<close> is a number, so \<^verbatim>\<open>server.port.x\<close> yields the
  default, and \<^verbatim>\<open>server.name\<close> yields the stored name.
\<close>

theorem get_default_or_stored_witness:
  "get sample_config ''server.port.x'' (JStr ''D'') = JStr ''D''
   \<and> get sample_config ''server.name'' (JStr ''D'') = JStr ''demo''"
proof -
  have r: "reaches sample_config (take 2 (split_dot ''server.port.x'')) (JNum 8080)"
    unfolding sample_config_def by (simp, intro reaches.intros, simp, intro reaches.intros, simp, intro reaches.intros)
  have "2 < length (split_dot ''server.port.x'') \<and> reaches sample_config (take 2 (split_dot ''server.port.x'')) (JNum 8080)
     \<and> \<not> has_key (JNum 8080) (split_dot ''server.port.x'' ! 2)"
    using r by (simp add: has_key_def)
  then have s: "\<exists>i<length (split_dot ''server.port.x''). \<exists>u. reaches sample_config (take i (split_dot ''server.port.x'')) u \<and> \<not> has_key u (split_dot ''server.port.x'' ! i)"
    by blast
  have n: "\<nexists>i. i < length (split_dot ''server.name'') \<and> (\<exists>u. reaches sample_config (take i (split_dot ''server.name'')) u \<and> \<not> has_key u (split_dot ''server.name'' ! i))"
    using stuck_iff [of sample_config "split_dot ''server.name''"]
    unfolding sample_config_def by (auto intro!: reaches.intros)
  from get_default_or_stored [of "''server.port.x''" sample_config "JStr ''D''"] s
  have 1: "get sample_config ''server.port.x'' (JStr ''D'') = JStr ''D''" by blast
  from get_default_or_stored [of "''server.name''" sample_config "JStr ''D''"] n
  obtain v where "reaches sample_config (split_dot ''server.name'') v" "get sample_config ''server.name'' (JStr ''D'') = v" by blast
  moreover have "reaches sample_config (split_dot ''server.name'') (JStr ''demo'')"
    unfolding sample_config_def by (auto intro!: reaches.intros)
  ultimately have 2: "get sample_config ''server.name'' (JStr ''D'') = JStr ''demo''"
    using reaches_functional by blast
  from 1 2 show ?thesis by simp
qed

subsection \<open>Environment interpolation\<close>

lemma exact_form_iff:
  "(startswith s ''${'' \<and> endswith s ''}'') \<longleftrightarrow> (\<exists>name. exact_form s name)"
proof
  assume a: "startswith s ''${'' \<and> endswith s ''}''"
  then obtain r where r: "s = ''${'' @ r" by (auto simp: startswith_def prefix_def)
  from a obtain q where q: "s = q @ ''}''" by (auto simp: endswith_def suffix_def)
  from r q have "r \<noteq> []" by auto
  then obtain name c where rc: "r = name @ [c]" by (metis rev_exhaust)
  with r q have "c = CHR ''}''" by auto
  with r rc show "\<exists>name. exact_form s name" by (auto simp: exact_form_def)
next
  assume "\<exists>name. exact_form s name"
  then show "startswith s ''${'' \<and> endswith s ''}''"
    by (auto simp: exact_form_def startswith_def endswith_def suffix_def)
qed

lemma exact_form_name: "exact_form s name \<Longrightarrow> drop 2 (butlast s) = name"
  by (simp add: exact_form_def butlast_append)

lemma process_item:
  "process_env_vars environ ((key, val) # rest) =
     (key, process_value environ val) # process_env_vars environ rest"
  by (simp add: process_value_def)

lemma map_of_process:
  "map_of (process_env_vars environ items) k = map_option (process_value environ) (map_of items k)"
proof (induction items)
  case Nil
  show ?case by simp
next
  case (Cons kv items)
  obtain key val where kv: "kv = (key, val)" by (cases kv)
  show ?case unfolding kv process_item using Cons.IH by simp
qed

lemma reaches_process_aux:
  "reaches c ks v \<Longrightarrow> ks \<noteq> [] \<Longrightarrow> reaches (process_value environ c) ks (process_value environ v)"
proof (induction rule: reaches.induct)
  case (reaches_Nil c)
  then show ?case by simp
next
  case (reaches_Cons items k u ks v)
  have m: "map_of (process_env_vars environ items) k = Some (process_value environ u)"
    using reaches_Cons.hyps(1) by (simp add: map_of_process)
  have "reaches (process_value environ u) ks (process_value environ v)"
  proof (cases "ks = []")
    case True
    with reaches_Cons.hyps(2) have "v = u" by (auto elim: reaches.cases)
    with True show ?thesis by (simp add: reaches.reaches_Nil)
  next
    case False
    then show ?thesis by (rule reaches_Cons.IH)
  qed
  with m show ?case by (simp add: process_value_def reaches.reaches_Cons)
qed

lemma reaches_process:
  assumes "reaches (JDict items) ks v" and "\<forall>d. v \<noteq> JDict d"
  shows "reaches (JDict (process_env_vars environ items)) ks (process_value environ v)"
proof -
  from assms have "ks \<noteq> []" by (auto elim: reaches.cases)
  from reaches_process_aux [OF assms(1) this, of environ] show ?thesis
    by (simp add: process_value_def)
qed

lemma set_walk_get_loop:
  "set_walk c ks v = Inr c' \<Longrightarrow> get_loop c' ks d = v"
proof (induction c ks v arbitrary: c' rule: set_walk.induct)
  case (3 items key k2 keys val)
  then show ?case
    by (auto simp: Let_def update_conv' split: sum.splits option.splits)
qed (auto simp: update_conv')

text \<open>
  Claim C7. \<^verbatim>\<open>load_config\<close> runs \<^verbatim>\<open>_process_env_vars\<close> once on the parsed document
  (and keeps the result when the configured log level is accepted; on any failure the
  built-in defaults are used instead). For every string reached from the document through
  keys of nested mappings: a string of the exact form \<^verbatim>\<open>${NAME}\<close> is replaced by the
  value of the environment variable \<open>NAME\<close>, or by the empty string when it is unset; any
  other string stays as it is. A sequence reached in that way stays as it is, with all its
  elements. A string stored later by \<^verbatim>\<open>set\<close> is read back by \<^verbatim>\<open>get\<close> as it was
  given, whatever its form.
\<close>

theorem env_interpolation:
  "(reaches (JDict items) ks (JStr s) \<and> exact_form s name \<longrightarrow>
      reaches (JDict (process_env_vars environ items)) ks
        (JStr (case environ name of Some v \<Rightarrow> v | None \<Rightarrow> [])))
   \<and> (reaches (JDict items) ks (JStr s) \<and> (\<nexists>n. exact_form s n) \<longrightarrow>
      reaches (JDict (process_env_vars environ items)) ks (JStr s))
   \<and> (reaches (JDict items) ks (JList xs) \<longrightarrow>
      reaches (JDict (process_env_vars environ items)) ks (JList xs))
   \<and> (level_ok (get (JDict (process_env_vars environ items)) ''server.log_level'' (JStr ''info'')) \<longrightarrow>
      load_config (Inr (JDict items)) environ level_ok = JDict (process_env_vars environ items))
   \<and> (set_config config key_path (JStr s) = Inr config' \<longrightarrow> get config' key_path d = JStr s)"
proof -
  have a: "reaches (JDict (process_env_vars environ items)) ks
        (JStr (case environ name of Some v \<Rightarrow> v | None \<Rightarrow> []))"
    if r: "reaches (JDict items) ks (JStr s)" and e: "exact_form s name"
  proof -
    have "startswith s ''${'' \<and> endswith s ''}''" using e exact_form_iff by blast
    then have "process_value environ (JStr s) = JStr (case environ name of Some v \<Rightarrow> v | None \<Rightarrow> [])"
      using exact_form_name [OF e] by (simp add: process_value_def environ_get_def)
    with reaches_process [OF r, of environ] show ?thesis by simp
  qed
  have b: "reaches (JDict (process_env_vars environ items)) ks (JStr s)"
    if r: "reaches (JDict items) ks (JStr s)" and e: "\<nexists>n. exact_form s n"
  proof -
    have "\<not> (startswith s ''${'' \<and> endswith s ''}'')" using e exact_form_iff by blast
    then have "process_value environ (JStr s) = JStr s"
      by (auto simp: process_value_def)
    with reaches_process [OF r, of environ] show ?thesis by simp
  qed
  have c: "reaches (JDict (process_env_vars environ items)) ks (JList xs)"
    if r: "reaches (JDict items) ks (JList xs)"
    using reaches_process [OF r, of environ] by (simp add: process_value_def)
  have d: "load_config (Inr (JDict items)) environ level_ok = JDict (process_env_vars environ items)"
    if "level_ok (get (JDict (process_env_vars environ items)) ''server.log_level'' (JStr ''info''))"
    using that by (simp add: load_config_def)
  have e: "get config' key_path d = JStr s" if "set_config config key_path (JStr s) = Inr config'"
    using that set_walk_get_loop by (simp add: set_config_def get_def)
  from a b c d e show ?thesis by blast
qed


text \<open>
  With \<^verbatim>\<open>FOO=bar\<close> the value \<^verbatim>\<open>${FOO}\<close> under \<^verbatim>\<open>api.key\<close> becomes \<^verbatim>\<open>bar\<close>; with
  an empty environment it becomes the empty string; \<^verbatim>\<open>http://${FOO}\<close> and the list
  under \<^verbatim>\<open>api.hosts\<close> are untouched; \<^verbatim>\<open>set\<close> stores \<^verbatim>\<open>${FOO}\<close> verbatim.
\<close>

theorem env_interpolation_witness:
  "reaches (JDict (process_env_vars foo_environ interp_items)) [''api'', ''key''] (JStr ''bar'')
   \<and> reaches (JDict (process_env_vars Map.empty interp_items)) [''api'', ''key''] (JStr [])
   \<and> reaches (JDict (process_env_vars foo_environ interp_items)) [''api'', ''url''] (JStr ''http://${FOO}'')
   \<and> reaches (JDict (process_env_vars foo_environ interp_items)) [''api'', ''hosts''] (JList [JStr ''${FOO}''])
   \<and> load_config (Inr (JDict interp_items)) foo_environ (\<lambda>v. v = JStr ''info'')
        = JDict (process_env_vars foo_environ interp_items)
   \<and> (\<exists>config'. set_config sample_config ''server.token'' (JStr ''${FOO}'') = Inr config'
        \<and> get config' ''server.token'' JNull = JStr ''${FOO}'')"
proof -
  have k: "reaches (JDict interp_items) [''api'', ''key''] (JStr ''${FOO}'')"
    unfolding interp_items_def by (auto intro!: reaches.intros)
  have u: "reaches (JDict interp_items) [''api'', ''url''] (JStr ''http://${FOO}'')"
    unfolding interp_items_def by (auto intro!: reaches.intros)
  have h: "reaches (JDict interp_items) [''api'', ''hosts''] (JList [JStr ''${FOO}''])"
    unfolding interp_items_def by (auto intro!: reaches.intros)
  have e: "exact_form ''${FOO}'' ''FOO''" by (simp add: exact_form_def)
  have ne: "\<nexists>n. exact_form ''http://${FOO}'' n" by (simp add: exact_form_def)
  have l: "(\<lambda>v. v = JStr ''info'')
     (get (JDict (process_env_vars foo_environ interp_items)) ''server.log_level'' (JStr ''info''))"
    by (simp add: get_def interp_items_def process_value_def)
  obtain config' where s: "set_config sample_config ''server.token'' (JStr ''${FOO}'') = Inr config'"
    by (simp add: set_config_def sample_config_def)
  have 1: "reaches (JDict (process_env_vars foo_environ interp_items)) [''api'', ''key''] (JStr ''bar'')"
    using env_interpolation [of interp_items "[''api'', ''key'']" "''${FOO}''" "''FOO''" foo_environ] k e
    by (simp add: foo_environ_def)
  have 2: "reaches (JDict (process_env_vars Map.empty interp_items)) [''api'', ''key''] (JStr [])"
    using env_interpolation [of interp_items "[''api'', ''key'']" "''${FOO}''" "''FOO''" Map.empty] k e
    by simp
  have 3: "reaches (JDict (process_env_vars foo_environ interp_items)) [''api'', ''url''] (JStr ''http://${FOO}'')"
    using env_interpolation [of interp_items "[''api'', ''url'']" "''http://${FOO}''" _ foo_environ] u ne
    by blast
  have 4: "reaches (JDict (process_env_vars foo_environ interp_items)) [''api'', ''hosts''] (JList [JStr ''${FOO}''])"
    using env_interpolation [of interp_items "[''api'', ''hosts'']" _ _ foo_environ "[JStr ''${FOO}'']"] h
    by blast
  have 5: "load_config (Inr (JDict interp_items)) foo_environ (\<lambda>v. v = JStr ''info'')
        = JDict (process_env_vars foo_environ interp_items)"
    using env_interpolation [of interp_items _ _ _ foo_environ _ "\<lambda>v. v = JStr ''info''"] l
    by blast
  have 6: "get config' ''server.token'' JNull = JStr ''${FOO}''"
    using env_interpolation [of _ _ "''${FOO}''" _ _ _ _ sample_config "''server.token''" config' JNull] s
    by blast
  from 1 2 3 4 5 6 s show ?thesis by blast
qed

subsection \<open>Load, reload and unload\<close>

lemma log_fields [simp]:
  "loaded_plugins (log lv m s) = loaded_plugins s"
  "plugin_paths (log lv m s) = plugin_paths s"
  "loaded_modules (log lv m s) = loaded_modules s"
  "sys_modules (log lv m s) = sys_modules s"
  "calls (log lv m s) = calls s"
  "logs (log lv m s) = logs s @ [(lv, m)]"
  by (simp_all add: log_def)

lemma load_already_loaded:
  "mod_name plugin_type plugin_id \<in> loaded_modules s \<Longrightarrow>
   load_plugin_file env s plugin_id file_path plugin_type
     = log DEBUG (Already_loaded (mod_name plugin_type plugin_id)) s"
  by (simp add: load_plugin_file_def)

lemma load_success:
  assumes "import_file env file_path = Exec_ok m" and "mod_setup m = Some Returns"
    and "mod_name plugin_type plugin_id \<notin> loaded_modules s"
  shows "loaded_plugins (load_plugin_file env s plugin_id file_path plugin_type)
           = (loaded_plugins s)(plugin_id \<mapsto> m)"
    and "plugin_paths (load_plugin_file env s plugin_id file_path plugin_type)
           = (plugin_paths s)(plugin_id \<mapsto> file_path)"
    and "loaded_modules (load_plugin_file env s plugin_id file_path plugin_type)
           = insert (mod_name plugin_type plugin_id) (loaded_modules s)"
    and "sys_modules (load_plugin_file env s plugin_id file_path plugin_type)
           = (sys_modules s)(mod_name plugin_type plugin_id \<mapsto> m)"
    and "calls (load_plugin_file env s plugin_id file_path plugin_type)
           = calls s @ [Setup_call plugin_id m]"
  using assms by (simp_all add: load_plugin_file_def Let_def)

lemma load_failure:
  assumes "import_file env file_path = No_spec \<or> (\<exists>m. import_file env file_path = Exec_raises m)
     \<or> (\<exists>m. import_file env file_path = Exec_ok m \<and> mod_setup m \<noteq> Some Returns)"
  shows "loaded_plugins (load_plugin_file env s plugin_id file_path plugin_type) = loaded_plugins s"
    and "plugin_paths (load_plugin_file env s plugin_id file_path plugin_type) = plugin_paths s"
    and "loaded_modules (load_plugin_file env s plugin_id file_path plugin_type) = loaded_modules s"
  using assms
  by (auto simp: load_plugin_file_def Let_def split: import_result.splits option.splits hook.splits)


text \<open>
  Claim C2. A first load that succeeds (the file executes, its \<^verbatim>\<open>setup\<close> returns, and
  the module name was not loaded before) registers the module and calls \<^verbatim>\<open>setup\<close> once.
  A second load with the same id and type, whatever path and file contents it is given,
  changes neither the loaded plugins, the plugin paths, the loaded module set nor
  \<^verbatim>\<open>sys.modules\<close>, and makes no further lifecycle call.
\<close>

theorem load_twice_noop:
  assumes "import_file env file_path = Exec_ok m" and "mod_setup m = Some Returns"
    and "mod_name plugin_type plugin_id \<notin> loaded_modules s"
    and "s1 = load_plugin_file env s plugin_id file_path plugin_type"
    and "s2 = load_plugin_file env' s1 plugin_id file_path' plugin_type"
  shows "loaded_plugins s1 plugin_id = Some m
     \<and> calls s1 = calls s @ [Setup_call plugin_id m]
     \<and> loaded_plugins s2 = loaded_plugins s1
     \<and> plugin_paths s2 = plugin_paths s1
     \<and> loaded_modules s2 = loaded_modules s1
     \<and> sys_modules s2 = sys_modules s1
     \<and> calls s2 = calls s1"
proof -
  have in1: "mod_name plugin_type plugin_id \<in> loaded_modules s1"
    unfolding assms(4) using load_success(3) [OF assms(1,2,3)] by simp
  have s2: "s2 = log DEBUG (Already_loaded (mod_name plugin_type plugin_id)) s1"
    unfolding assms(5) using in1 by (rule load_already_loaded)
  have "loaded_plugins s1 plugin_id = Some m"
    unfolding assms(4) using load_success(1) [OF assms(1,2,3)] by simp
  moreover have "calls s1 = calls s @ [Setup_call plugin_id m]"
    unfolding assms(4) using load_success(5) [OF assms(1,2,3)] by simp
  ultimately show ?thesis using s2 by simp
qed

text \<open>
  Claim C5. When the \<^verbatim>\<open>setup\<close> of the module being loaded raises, the call is made, the
  failure is logged as an error, and the loaded plugins, the plugin paths and the loaded
  module set are what they were. Conversely, whenever a load changes one of the three, the
  file's \<^verbatim>\<open>setup\<close> was called and returned, and the entry stored is that module: an entry
  is inserted only after \<^verbatim>\<open>setup\<close> has returned.
\<close>

theorem setup_failure_no_mutation:
  "(import_file env file_path = Exec_ok m \<and> mod_setup m = Some Raises
      \<and> mod_name plugin_type plugin_id \<notin> loaded_modules s \<longrightarrow>
        loaded_plugins (load_plugin_file env s plugin_id file_path plugin_type) = loaded_plugins s
      \<and> plugin_paths (load_plugin_file env s plugin_id file_path plugin_type) = plugin_paths s
      \<and> loaded_modules (load_plugin_file env s plugin_id file_path plugin_type) = loaded_modules s
      \<and> calls (load_plugin_file env s plugin_id file_path plugin_type) = calls s @ [Setup_call plugin_id m]
      \<and> last (logs (load_plugin_file env s plugin_id file_path plugin_type)) = (ERROR, Load_failed plugin_id))
   \<and> (loaded_plugins (load_plugin_file env s plugin_id file_path plugin_type) \<noteq> loaded_plugins s
      \<or> plugin_paths (load_plugin_file env s plugin_id file_path plugin_type) \<noteq> plugin_paths s
      \<or> loaded_modules (load_plugin_file env s plugin_id file_path plugin_type) \<noteq> loaded_modules s \<longrightarrow>
        (\<exists>m'. import_file env file_path = Exec_ok m' \<and> mod_setup m' = Some Returns
           \<and> calls (load_plugin_file env s plugin_id file_path plugin_type) = calls s @ [Setup_call plugin_id m']
           \<and> loaded_plugins (load_plugin_file env s plugin_id file_path plugin_type) plugin_id = Some m'))"
proof -
  let ?s' = "load_plugin_file env s plugin_id file_path plugin_type"
  have a: "loaded_plugins ?s' = loaded_plugins s \<and> plugin_paths ?s' = plugin_paths s
      \<and> loaded_modules ?s' = loaded_modules s
      \<and> calls ?s' = calls s @ [Setup_call plugin_id m]
      \<and> last (logs ?s') = (ERROR, Load_failed plugin_id)"
    if "import_file env file_path = Exec_ok m" "mod_setup m = Some Raises"
       "mod_name plugin_type plugin_id \<notin> loaded_modules s"
    using that by (simp add: load_plugin_file_def Let_def)
  have b: "\<exists>m'. import_file env file_path = Exec_ok m' \<and> mod_setup m' = Some Returns
           \<and> calls ?s' = calls s @ [Setup_call plugin_id m']
           \<and> loaded_plugins ?s' plugin_id = Some m'"
    if "loaded_plugins ?s' \<noteq> loaded_plugins s \<or> plugin_paths ?s' \<noteq> plugin_paths s
      \<or> loaded_modules ?s' \<noteq> loaded_modules s"
    using that
    by (auto simp: load_plugin_file_def Let_def split: if_splits import_result.splits option.splits hook.splits)
  from a b show ?thesis by blast
qed

text \<open>
  Claim C9. When the id has no current record (it is missing from the loaded plugins or
  from the plugin paths), \<^verbatim>\<open>reload_plugin\<close> returns \<^verbatim>\<open>False\<close>, raises nothing, makes
  no lifecycle call and leaves every field of the loader but the log unchanged; the log
  gets one warning.
\<close>

theorem reload_not_loaded:
  assumes "loaded_plugins s plugin_id = None \<or> plugin_paths s plugin_id = None"
  shows "snd (reload_plugin config env s plugin_id) = False
     \<and> loaded_plugins (fst (reload_plugin config env s plugin_id)) = loaded_plugins s
     \<and> plugin_paths (fst (reload_plugin config env s plugin_id)) = plugin_paths s
     \<and> loaded_modules (fst (reload_plugin config env s plugin_id)) = loaded_modules s
     \<and> sys_modules (fst (reload_plugin config env s plugin_id)) = sys_modules s
     \<and> calls (fst (reload_plugin config env s plugin_id)) = calls s
     \<and> logs (fst (reload_plugin config env s plugin_id)) = logs s @ [(WARNING, Reload_not_loaded plugin_id)]"
  using assms by (auto simp: reload_plugin_def split: option.splits)

text \<open>
  Claim C3, amended. For every loaded plugin whose module defines a \<^verbatim>\<open>teardown\<close> that
  raises, \<^verbatim>\<open>unload_plugin\<close> calls it, logs the failure as an error and returns
  \<^verbatim>\<open>False\<close>; the registry entry, the path and the module identity all stay in place.
\<close>

theorem unload_teardown_raises:
  assumes "loaded_plugins s plugin_id = Some m" and "mod_teardown m = Some Raises"
  shows "snd (unload_plugin s plugin_id) = False
     \<and> loaded_plugins (fst (unload_plugin s plugin_id)) = loaded_plugins s
     \<and> plugin_paths (fst (unload_plugin s plugin_id)) = plugin_paths s
     \<and> loaded_modules (fst (unload_plugin s plugin_id)) = loaded_modules s
     \<and> sys_modules (fst (unload_plugin s plugin_id)) = sys_modules s
     \<and> calls (fst (unload_plugin s plugin_id)) = calls s @ [Teardown_call plugin_id m]
     \<and> logs (fst (unload_plugin s plugin_id)) = logs s @ [(ERROR, Unload_failed plugin_id)]"
  using assms by (simp add: unload_plugin_def)


lemma type_of_path_default:
  "type_of_path default_config ''plugins/tools/foo.py'' plugin_types = Inr (Some ''tools'')"
  by (simp add: plugin_types_def get_plugin_directory_def get_def default_config_def startswith_def)

lemma scan_default_tools:
  assumes "mod_setup m = Some Returns"
  shows "foo_loaded m =
     log WARNING (Dir_missing (JStr ''plugins/sampling''))
       (load_plugin_file (tools_env m)
          (log INFO (Loading_type ''tools'')
             (log WARNING (Dir_missing (JStr ''plugins/prompts''))
                (log WARNING (Dir_missing (JStr ''plugins/resources'')) new_loader)))
          ''foo'' ''plugins/tools/foo.py'' ''tools'')"
  by (simp add: foo_loaded_def load_all_plugins_def plugin_types_def load_plugins_by_type_def
      get_plugin_directory_def get_def default_config_def tools_env_def is_plugin_file_def
      plugin_id_of_def is_plugin_disabled_def path_join_def startswith_def endswith_def
      suffix_to_prefix Let_def)

lemma foo_loaded_fields:
  assumes "mod_setup m = Some Returns"
  shows "loaded_plugins (foo_loaded m) = [''foo'' \<mapsto> m]"
    and "plugin_paths (foo_loaded m) = [''foo'' \<mapsto> ''plugins/tools/foo.py'']"
    and "loaded_modules (foo_loaded m) = {''tools.foo''}"
    and "sys_modules (foo_loaded m) = [''tools.foo'' \<mapsto> m]"
    and "calls (foo_loaded m) = [Setup_call ''foo'' m]"
  unfolding scan_default_tools [OF assms]
  using assms
  by (simp_all add: load_plugin_file_def mod_name_def tools_env_def new_loader_def Let_def)

text \<open>
  Loading \<^verbatim>\<open>foo\<close> twice, the second time from a changed file: one \<^verbatim>\<open>setup\<close> call, and
  the first module stays registered.
\<close>

theorem load_twice_noop_witness:
  "loaded_plugins (load_plugin_file (tools_env good_module) new_loader ''foo'' ''plugins/tools/foo.py'' ''tools'') ''foo''
      = Some good_module
   \<and> calls (load_plugin_file (tools_env good_module2)
        (load_plugin_file (tools_env good_module) new_loader ''foo'' ''plugins/tools/foo.py'' ''tools'')
        ''foo'' ''plugins/tools/foo.py'' ''tools'') = [Setup_call ''foo'' good_module]
   \<and> loaded_plugins (load_plugin_file (tools_env good_module2)
        (load_plugin_file (tools_env good_module) new_loader ''foo'' ''plugins/tools/foo.py'' ''tools'')
        ''foo'' ''plugins/tools/foo.py'' ''tools'') ''foo'' = Some good_module"
proof -
  have 1: "import_file (tools_env good_module) ''plugins/tools/foo.py'' = Exec_ok good_module"
    by (simp add: tools_env_def)
  have 2: "mod_setup good_module = Some Returns" by (simp add: good_module_def)
  have 3: "mod_name ''tools'' ''foo'' \<notin> loaded_modules new_loader" by (simp add: new_loader_def)
  from load_twice_noop [OF 1 2 3 refl refl, of "tools_env good_module2" "''plugins/tools/foo.py''"]
  show ?thesis by (simp add: new_loader_def)
qed

text \<open>
  A module whose \<^verbatim>\<open>setup\<close> raises leaves a fresh loader's registry empty; a module
  whose \<^verbatim>\<open>setup\<close> returns is the one found registered.
\<close>

theorem setup_failure_no_mutation_witness:
  "loaded_plugins (load_plugin_file (tools_env bad_setup_module) new_loader ''foo'' ''plugins/tools/foo.py'' ''tools'')
      = Map.empty
   \<and> plugin_paths (load_plugin_file (tools_env bad_setup_module) new_loader ''foo'' ''plugins/tools/foo.py'' ''tools'')
      = Map.empty
   \<and> loaded_modules (load_plugin_file (tools_env bad_setup_module) new_loader ''foo'' ''plugins/tools/foo.py'' ''tools'')
      = {}
   \<and> calls (load_plugin_file (tools_env bad_setup_module) new_loader ''foo'' ''plugins/tools/foo.py'' ''tools'')
      = [Setup_call ''foo'' bad_setup_module]
   \<and> last (logs (load_plugin_file (tools_env bad_setup_module) new_loader ''foo'' ''plugins/tools/foo.py'' ''tools''))
      = (ERROR, Load_failed ''foo'')
   \<and> (\<exists>m'. import_file (tools_env good_module) ''plugins/tools/foo.py'' = Exec_ok m' \<and> mod_setup m' = Some Returns
        \<and> loaded_plugins (load_plugin_file (tools_env good_module) new_loader ''foo'' ''plugins/tools/foo.py'' ''tools'') ''foo''
            = Some m')"
proof -
  have 1: "import_file (tools_env bad_setup_module) ''plugins/tools/foo.py'' = Exec_ok bad_setup_module
     \<and> mod_setup bad_setup_module = Some Raises \<and> mod_name ''tools'' ''foo'' \<notin> loaded_modules new_loader"
    by (simp add: tools_env_def bad_setup_module_def new_loader_def)
  have 2: "loaded_plugins (load_plugin_file (tools_env good_module) new_loader ''foo'' ''plugins/tools/foo.py'' ''tools'')
      \<noteq> loaded_plugins new_loader"
  proof
    assume "loaded_plugins (load_plugin_file (tools_env good_module) new_loader ''foo'' ''plugins/tools/foo.py'' ''tools'')
      = loaded_plugins new_loader"
    then have "loaded_plugins (load_plugin_file (tools_env good_module) new_loader ''foo'' ''plugins/tools/foo.py'' ''tools'') ''foo''
      = loaded_plugins new_loader ''foo''" by simp
    then show False
      by (simp add: load_plugin_file_def tools_env_def good_module_def new_loader_def mod_name_def Let_def)
  qed
  from setup_failure_no_mutation [of "tools_env bad_setup_module" "''plugins/tools/foo.py''" bad_setup_module
      "''tools''" "''foo''" new_loader] 1
  have a: "loaded_plugins (load_plugin_file (tools_env bad_setup_module) new_loader ''foo'' ''plugins/tools/foo.py'' ''tools'')
      = loaded_plugins new_loader
   \<and> plugin_paths (load_plugin_file (tools_env bad_setup_module) new_loader ''foo'' ''plugins/tools/foo.py'' ''tools'')
      = plugin_paths new_loader
   \<and> loaded_modules (load_plugin_file (tools_env bad_setup_module) new_loader ''foo'' ''plugins/tools/foo.py'' ''tools'')
      = loaded_modules new_loader
   \<and> calls (load_plugin_file (tools_env bad_setup_module) new_loader ''foo'' ''plugins/tools/foo.py'' ''tools'')
      = calls new_loader @ [Setup_call ''foo'' bad_setup_module]
   \<and> last (logs (load_plugin_file (tools_env bad_setup_module) new_loader ''foo'' ''plugins/tools/foo.py'' ''tools''))
      = (ERROR, Load_failed ''foo'')"
    by blast
  from setup_failure_no_mutation [of "tools_env good_module" "''plugins/tools/foo.py''" _
      "''tools''" "''foo''" new_loader] 2
  have b: "\<exists>m'. import_file (tools_env good_module) ''plugins/tools/foo.py'' = Exec_ok m' \<and> mod_setup m' = Some Returns
        \<and> loaded_plugins (load_plugin_file (tools_env good_module) new_loader ''foo'' ''plugins/tools/foo.py'' ''tools'') ''foo''
            = Some m'"
    by blast
  from a b show ?thesis by (simp add: new_loader_def)
qed

text \<open>
  Reloading \<^verbatim>\<open>foo\<close> on a fresh loader.
\<close>

theorem reload_not_loaded_witness:
  "snd (reload_plugin default_config (tools_env good_module) new_loader ''foo'') = False
   \<and> loaded_plugins (fst (reload_plugin default_config (tools_env good_module) new_loader ''foo'')) = Map.empty
   \<and> plugin_paths (fst (reload_plugin default_config (tools_env good_module) new_loader ''foo'')) = Map.empty
   \<and> loaded_modules (fst (reload_plugin default_config (tools_env good_module) new_loader ''foo'')) = {}
   \<and> calls (fst (reload_plugin default_config (tools_env good_module) new_loader ''foo'')) = []"
proof -
  have "loaded_plugins new_loader ''foo'' = None \<or> plugin_paths new_loader ''foo'' = None"
    by (simp add: new_loader_def)
  from reload_not_loaded [OF this, of default_config "tools_env good_module"]
  show ?thesis by (simp add: new_loader_def)
qed

text \<open>
  Claim C3 as stated fails. After the startup scan has loaded \<^verbatim>\<open>foo\<close>, whose
  \<^verbatim>\<open>teardown\<close> raises, \<^verbatim>\<open>unload_plugin\<close> returns \<^verbatim>\<open>False\<close> and the plugin is still
  registered, with its path and its module name.
\<close>

theorem unload_teardown_raises_counterexample:
  "loaded_plugins (foo_loaded bad_teardown_module) ''foo'' = Some bad_teardown_module
   \<and> mod_teardown bad_teardown_module = Some Raises
   \<and> loaded_plugins (fst (unload_plugin (foo_loaded bad_teardown_module) ''foo'')) ''foo''
        = Some bad_teardown_module
   \<and> plugin_paths (fst (unload_plugin (foo_loaded bad_teardown_module) ''foo'')) ''foo''
        = Some ''plugins/tools/foo.py''
   \<and> ''tools.foo'' \<in> loaded_modules (fst (unload_plugin (foo_loaded bad_teardown_module) ''foo''))
   \<and> snd (unload_plugin (foo_loaded bad_teardown_module) ''foo'') = False"
proof -
  have s: "mod_setup bad_teardown_module = Some Returns" by (simp add: bad_teardown_module_def)
  have t: "mod_teardown bad_teardown_module = Some Raises" by (simp add: bad_teardown_module_def)
  show ?thesis
    using t by (simp add: unload_plugin_def foo_loaded_fields [OF s])
qed

text \<open>
  The same plugin \<^verbatim>\<open>foo\<close>: the teardown call is recorded, the entry remains.
\<close>

theorem unload_teardown_raises_witness:
  "snd (unload_plugin (foo_loaded bad_teardown_module) ''foo'') = False
   \<and> loaded_plugins (fst (unload_plugin (foo_loaded bad_teardown_module) ''foo'')) = [''foo'' \<mapsto> bad_teardown_module]
   \<and> calls (fst (unload_plugin (foo_loaded bad_teardown_module) ''foo''))
       = [Setup_call ''foo'' bad_teardown_module, Teardown_call ''foo'' bad_teardown_module]
   \<and> last (logs (fst (unload_plugin (foo_loaded bad_teardown_module) ''foo''))) = (ERROR, Unload_failed ''foo'')"
proof -
  have s: "mod_setup bad_teardown_module = Some Returns" by (simp add: bad_teardown_module_def)
  have t: "mod_teardown bad_teardown_module = Some Raises" by (simp add: bad_teardown_module_def)
  have l: "loaded_plugins (foo_loaded bad_teardown_module) ''foo'' = Some bad_teardown_module"
    by (simp add: foo_loaded_fields [OF s])
  from unload_teardown_raises [OF l t] show ?thesis
    by (simp add: foo_loaded_fields [OF s])
qed

subsection \<open>Reload of a loaded plugin\<close>

lemma reload_resolved:
  assumes "loaded_plugins s plugin_id = Some old" and "plugin_paths s plugin_id = Some file_path"
    and "type_of_path config file_path plugin_types = Inr (Some t)"
  shows "reload_plugin config env s plugin_id =
     (log INFO (Reloaded plugin_id)
        (load_plugin_file env
           (s\<lparr>sys_modules := (sys_modules s)(mod_name t plugin_id := None),
              loaded_plugins := (loaded_plugins s)(plugin_id := None),
              loaded_modules := loaded_modules s - {mod_name t plugin_id}\<rparr>)
           plugin_id file_path t), True)"
  using assms by (simp add: reload_plugin_def Let_def)






text \<open>
  Claim C10. The plugin is loaded and its stored path lies under a configured plugin
  directory, but the load inside \<^verbatim>\<open>reload_plugin\<close> fails: there is no spec for the file,
  or the module body raises, or the module has no \<^verbatim>\<open>setup\<close>, or its \<^verbatim>\<open>setup\<close> raises.
  Then \<^verbatim>\<open>reload_plugin\<close> still returns \<^verbatim>\<open>True\<close>, and afterwards the id is not among
  the loaded plugins and its module name is not in the loaded module set. (The stale
  entry of \<^verbatim>\<open>plugin_paths\<close> is kept.)
\<close>

theorem reload_true_after_failed_load:
  assumes "loaded_plugins s plugin_id = Some old" and "plugin_paths s plugin_id = Some file_path"
    and "type_of_path config file_path plugin_types = Inr (Some t)"
    and "import_file env file_path = No_spec \<or> (\<exists>m. import_file env file_path = Exec_raises m)
         \<or> (\<exists>m. import_file env file_path = Exec_ok m \<and> mod_setup m \<noteq> Some Returns)"
  shows "snd (reload_plugin config env s plugin_id) = True
     \<and> loaded_plugins (fst (reload_plugin config env s plugin_id)) plugin_id = None
     \<and> mod_name t plugin_id \<notin> loaded_modules (fst (reload_plugin config env s plugin_id))
     \<and> plugin_paths (fst (reload_plugin config env s plugin_id)) plugin_id = Some file_path"
  unfolding reload_resolved [OF assms(1,2,3)]
  using load_failure [OF assms(4)] assms(2) by simp

text \<open>
  \<^verbatim>\<open>foo\<close> is loaded, then its file changes to a module whose \<^verbatim>\<open>setup\<close> raises.
\<close>

theorem reload_true_after_failed_load_witness:
  "snd (reload_plugin default_config (tools_env bad_setup_module) (foo_loaded good_module) ''foo'') = True
   \<and> loaded_plugins (fst (reload_plugin default_config (tools_env bad_setup_module) (foo_loaded good_module) ''foo'')) ''foo''
       = None
   \<and> ''tools.foo'' \<notin> loaded_modules (fst (reload_plugin default_config (tools_env bad_setup_module) (foo_loaded good_module) ''foo''))"
proof -
  have s: "mod_setup good_module = Some Returns" by (simp add: good_module_def)
  have l: "loaded_plugins (foo_loaded good_module) ''foo'' = Some good_module"
    "plugin_paths (foo_loaded good_module) ''foo'' = Some ''plugins/tools/foo.py''"
    by (simp_all add: foo_loaded_fields [OF s])
  have f: "import_file (tools_env bad_setup_module) ''plugins/tools/foo.py'' = No_spec
     \<or> (\<exists>m. import_file (tools_env bad_setup_module) ''plugins/tools/foo.py'' = Exec_raises m)
     \<or> (\<exists>m. import_file (tools_env bad_setup_module) ''plugins/tools/foo.py'' = Exec_ok m \<and> mod_setup m \<noteq> Some Returns)"
    by (simp add: tools_env_def bad_setup_module_def)
  from reload_true_after_failed_load [OF l type_of_path_default f]
  show ?thesis by (simp add: mod_name_def)
qed

subsection \<open>The watcher\<close>

lemma watch_file_scanned:
  "scanned (fst (fst (watch_file sc lc env directory filename (w, s)))) = scanned w"
  by (simp add: watch_file_def Let_def split: sum.splits option.splits)

lemma watch_names_scanned:
  "scanned (fst (fst (watch_names sc lc env directory names (w, s)))) = scanned w"
proof (induction names arbitrary: w s)
  case Nil
  show ?case by simp
next
  case (Cons filename rest)
  show ?case
  proof (cases "is_plugin_file filename")
    case False
    then show ?thesis using Cons.IH by simp
  next
    case True
    obtain ws' r where f0: "watch_file sc lc env directory filename (w, s) = (ws', r)"
      by (cases "watch_file sc lc env directory filename (w, s)")
    obtain w' s' where ws': "ws' = (w', s')" by (cases ws')
    have f: "watch_file sc lc env directory filename (w, s) = ((w', s'), r)"
      using f0 ws' by simp
    have w': "scanned w' = scanned w"
      using watch_file_scanned [of sc lc env directory filename w s] f by simp
    show ?thesis
    proof (cases r)
      case None
      then show ?thesis using True f w' Cons.IH [of w' s'] by simp
    next
      case (Some e)
      then show ?thesis using True f w' by simp
    qed
  qed
qed


lemma watch_dirs_exists_raises: "path_exists env directory = Inl e \<Longrightarrow>
  watch_dirs sc lc env (directory # dirs) (w, s) = ((w\<lparr>scanned := scanned w @ [directory]\<rparr>, s), Some e)"
  by (simp add: Let_def)


lemma watch_dirs_missing: "path_exists env directory = Inr False \<Longrightarrow>
  watch_dirs sc lc env (directory # dirs) (w, s) = watch_dirs sc lc env dirs (w\<lparr>scanned := scanned w @ [directory]\<rparr>, s)"
  by (simp add: Let_def)

lemma watch_dirs_listdir_raises: "path_exists env directory = Inr True \<Longrightarrow> listdir env directory = Inl e \<Longrightarrow>
  watch_dirs sc lc env (directory # dirs) (w, s) = ((w\<lparr>scanned := scanned w @ [directory]\<rparr>, s), Some e)"
  by (simp add: Let_def)

lemma watch_dirs_names_raise: "path_exists env directory = Inr True \<Longrightarrow> listdir env directory = Inr names \<Longrightarrow>
  watch_names sc lc env directory names (w\<lparr>scanned := scanned w @ [directory]\<rparr>, s) = (ws', Some e) \<Longrightarrow>
  watch_dirs sc lc env (directory # dirs) (w, s) = (ws', Some e)"
  by (simp add: Let_def)

lemma watch_dirs_names_ok: "path_exists env directory = Inr True \<Longrightarrow> listdir env directory = Inr names \<Longrightarrow>
  watch_names sc lc env directory names (w\<lparr>scanned := scanned w @ [directory]\<rparr>, s) = (ws', None) \<Longrightarrow>
  watch_dirs sc lc env (directory # dirs) (w, s) = watch_dirs sc lc env dirs ws'"
  by (simp add: Let_def)


lemma scanned_stopI:
  assumes "X = ((w2, s2), Some e)" and "scanned w2 = scanned w @ [directory]"
  shows "\<exists>k. k \<le> length (directory # dirs) \<and> scanned (fst (fst X)) = scanned w @ take k (directory # dirs)
     \<and> (snd X = None \<longrightarrow> k = length (directory # dirs)) \<and> (directory # dirs \<noteq> [] \<longrightarrow> 0 < k)"
  by (rule exI [of _ 1]) (simp add: assms)



lemma scanned_goI:
  assumes "X = Y" and "scanned w2 = scanned w @ [directory]"
    and "\<exists>k. k \<le> length dirs \<and> scanned (fst (fst Y)) = scanned w2 @ take k dirs
       \<and> (snd Y = None \<longrightarrow> k = length dirs) \<and> (dirs \<noteq> [] \<longrightarrow> 0 < k)"
  shows "\<exists>k. k \<le> length (directory # dirs) \<and> scanned (fst (fst X)) = scanned w @ take k (directory # dirs)
     \<and> (snd X = None \<longrightarrow> k = length (directory # dirs)) \<and> (directory # dirs \<noteq> [] \<longrightarrow> 0 < k)"
proof -
  from assms(3) obtain k where k: "k \<le> length dirs \<and> scanned (fst (fst Y)) = scanned w2 @ take k dirs
       \<and> (snd Y = None \<longrightarrow> k = length dirs) \<and> (dirs \<noteq> [] \<longrightarrow> 0 < k)" ..
  note k1 = k [THEN conjunct1] and k2 = k [THEN conjunct2, THEN conjunct1]
    and k3 = k [THEN conjunct2, THEN conjunct2, THEN conjunct1]
  have a: "Suc k \<le> length (directory # dirs)" using k1 by simp
  have b: "scanned (fst (fst Y)) = scanned w @ take (Suc k) (directory # dirs)"
    using k2 assms(2) by simp
  have c: "snd Y = None \<longrightarrow> Suc k = length (directory # dirs)" using k3 by simp
  have d: "directory # dirs \<noteq> [] \<longrightarrow> 0 < Suc k" by simp
  have "Suc k \<le> length (directory # dirs)
     \<and> scanned (fst (fst Y)) = scanned w @ take (Suc k) (directory # dirs)
     \<and> (snd Y = None \<longrightarrow> Suc k = length (directory # dirs))
     \<and> (directory # dirs \<noteq> [] \<longrightarrow> 0 < Suc k)"
    by (intro conjI a b c d)
  then show ?thesis unfolding assms(1) by (rule exI)
qed


lemma watch_dirs_scanned:
  "\<exists>k. k \<le> length dirs \<and> scanned (fst (fst (watch_dirs sc lc env dirs (w, s)))) = scanned w @ take k dirs
     \<and> (snd (watch_dirs sc lc env dirs (w, s)) = None \<longrightarrow> k = length dirs) \<and> (dirs \<noteq> [] \<longrightarrow> 0 < k)"
proof (induction dirs arbitrary: w s)
  case Nil
  show ?case by simp
next
  case (Cons directory dirs)
  let ?w1 = "w\<lparr>scanned := scanned w @ [directory]\<rparr>"
  have w1: "scanned ?w1 = scanned w @ [directory]" by simp
  show ?case
  proof (cases "path_exists env directory")
    case (Inl e)
    show ?thesis
      by (rule scanned_stopI [OF watch_dirs_exists_raises [OF Inl] w1])
  next
    case (Inr b)
    show ?thesis
    proof (cases b)
      case False
      with Inr have p: "path_exists env directory = Inr False" by simp
      show ?thesis
        by (rule scanned_goI [OF watch_dirs_missing [OF p] w1 Cons.IH])
    next
      case True
      with Inr have p: "path_exists env directory = Inr True" by simp
      show ?thesis
      proof (cases "listdir env directory")
        case (Inl e)
        show ?thesis
          by (rule scanned_stopI [OF watch_dirs_listdir_raises [OF p Inl] w1])
      next
        case names: (Inr names)
        obtain ws' r where n0: "watch_names sc lc env directory names (?w1, s) = (ws', r)"
          by (cases "watch_names sc lc env directory names (?w1, s)")
        obtain w' s' where ws': "ws' = (w', s')" by (cases ws')
        have w': "scanned w' = scanned w @ [directory]"
          using watch_names_scanned [of sc lc env directory names ?w1 s] n0 ws' by simp
        show ?thesis
        proof (cases r)
          case None
          with n0 ws' have n: "watch_names sc lc env directory names (?w1, s) = ((w', s'), None)" by simp
          show ?thesis
            by (rule scanned_goI [OF watch_dirs_names_ok [OF p names n] w' Cons.IH])
        next
          case (Some e)
          with n0 ws' have n: "watch_names sc lc env directory names (?w1, s) = ((w', s'), Some e)" by simp
          show ?thesis
            by (rule scanned_stopI [OF watch_dirs_names_raise [OF p names n] w'])
        qed
      qed
    qed
  qed
qed


lemma watch_cycle_scanned:
  "\<exists>k. k \<le> length dirs \<and> scanned (fst (watch_cycle dirs world (w, s))) = scanned w @ take k dirs"
proof -
  obtain sc rest where w1: "world = (sc, rest)" by (cases world)
  obtain lc env where w2: "rest = (lc, env)" by (cases rest)
  obtain ws' r where d0: "watch_dirs sc lc env dirs (w, s) = (ws', r)"
    by (cases "watch_dirs sc lc env dirs (w, s)")
  obtain w' s' where ws': "ws' = (w', s')" by (cases ws')
  from watch_dirs_scanned [of dirs sc lc env w s]
  obtain k where k: "k \<le> length dirs
     \<and> scanned (fst (fst (watch_dirs sc lc env dirs (w, s)))) = scanned w @ take k dirs
     \<and> (snd (watch_dirs sc lc env dirs (w, s)) = None \<longrightarrow> k = length dirs) \<and> (dirs \<noteq> [] \<longrightarrow> 0 < k)" ..
  have k1: "k \<le> length dirs" using k by simp
  have k2: "scanned w' = scanned w @ take k dirs" using k d0 ws' by simp
  have c: "scanned (fst (watch_cycle dirs world (w, s))) = scanned w'"
    using w1 w2 d0 ws' by (cases r) (simp_all add: watch_cycle_def)
  have "k \<le> length dirs \<and> scanned (fst (watch_cycle dirs world (w, s))) = scanned w @ take k dirs"
    using k1 k2 c by simp
  then show ?thesis by (rule exI)
qed

lemma watch_loop_scanned:
  "\<exists>ks. length ks = length worlds
     \<and> scanned (fst (watch_loop dirs worlds (w, s))) = scanned w @ concat (map (\<lambda>k. take k dirs) ks)"
proof (induction worlds arbitrary: w s)
  case Nil
  have "length ([] :: nat list) = length ([] :: (json \<times> json \<times> os_env) list)
     \<and> scanned (fst (watch_loop dirs [] (w, s))) = scanned w @ concat (map (\<lambda>k. take k dirs) [])"
    by simp
  then show ?case by (rule exI)
next
  case (Cons world worlds)
  obtain w' s' where c: "watch_cycle dirs world (w, s) = (w', s')"
    by (cases "watch_cycle dirs world (w, s)")
  from watch_cycle_scanned [of dirs world w s]
  obtain k where k: "k \<le> length dirs
    \<and> scanned (fst (watch_cycle dirs world (w, s))) = scanned w @ take k dirs" ..
  have k2: "scanned w' = scanned w @ take k dirs" using k c by simp
  from Cons.IH [of w' s'] obtain ks where ks: "length ks = length worlds
    \<and> scanned (fst (watch_loop dirs worlds (w', s'))) = scanned w' @ concat (map (\<lambda>k. take k dirs) ks)" ..
  have "length (k # ks) = length (world # worlds)
     \<and> scanned (fst (watch_loop dirs (world # worlds) (w, s)))
         = scanned w @ concat (map (\<lambda>k. take k dirs) (k # ks))"
    using c k2 ks by simp
  then show ?case by (rule exI)
qed


lemma watch_cycle_pass:
  "\<exists>k. k \<le> length dirs \<and> (dirs \<noteq> [] \<longrightarrow> 0 < k)
     \<and> scanned (fst (watch_cycle dirs (sc, lc, env) ws)) = scanned (fst ws) @ take k dirs
     \<and> (snd (watch_dirs sc lc env dirs ws) = None \<longrightarrow> k = length dirs)"
proof -
  obtain w s where ws: "ws = (w, s)" by (cases ws)
  obtain ws' r where d0: "watch_dirs sc lc env dirs (w, s) = (ws', r)"
    by (cases "watch_dirs sc lc env dirs (w, s)")
  obtain w' s' where ws': "ws' = (w', s')" by (cases ws')
  from watch_dirs_scanned [of dirs sc lc env w s]
  obtain k where k: "k \<le> length dirs
     \<and> scanned (fst (fst (watch_dirs sc lc env dirs (w, s)))) = scanned w @ take k dirs
     \<and> (snd (watch_dirs sc lc env dirs (w, s)) = None \<longrightarrow> k = length dirs) \<and> (dirs \<noteq> [] \<longrightarrow> 0 < k)" ..
  have k1: "k \<le> length dirs" using k by simp
  have k2: "scanned w' = scanned w @ take k dirs" using k d0 ws' by simp
  have k3: "snd (watch_dirs sc lc env dirs (w, s)) = None \<longrightarrow> k = length dirs" using k by simp
  have k4: "dirs \<noteq> [] \<longrightarrow> 0 < k" using k by simp
  have c: "scanned (fst (watch_cycle dirs (sc, lc, env) (w, s))) = scanned w'"
    using d0 ws' by (cases r) (simp_all add: watch_cycle_def)
  have "k \<le> length dirs \<and> (dirs \<noteq> [] \<longrightarrow> 0 < k)
     \<and> scanned (fst (watch_cycle dirs (sc, lc, env) (w, s))) = scanned (fst (w, s)) @ take k dirs
     \<and> (snd (watch_dirs sc lc env dirs (w, s)) = None \<longrightarrow> k = length dirs)"
    using k1 k2 k3 k4 c by simp
  then show ?thesis unfolding ws by (rule exI)
qed

lemma watch_loop_snoc:
  "watch_loop dirs (worlds @ [world]) ws = watch_cycle dirs world (watch_loop dirs worlds ws)"
  by (induction worlds arbitrary: ws) simp_all

lemma watch_files_snoc:
  "watch_files start_config (worlds @ [world]) s
   = watch_cycle (map (get_plugin_directory start_config) plugin_types) world
       (watch_files start_config worlds s)"
  by (simp add: watch_files_def watch_loop_snoc Let_def)

lemma watch_files_subset:
  "set (scanned (fst (watch_files start_config worlds s)))
     \<subseteq> set (map (get_plugin_directory start_config) plugin_types)"
proof -
  from watch_loop_scanned [of worlds "map (get_plugin_directory start_config) plugin_types"
      "\<lparr>file_mtimes = Map.empty, scanned = []\<rparr>" s]
  obtain ks where ks: "length ks = length worlds
     \<and> scanned (fst (watch_loop (map (get_plugin_directory start_config) plugin_types) worlds
          (\<lparr>file_mtimes = Map.empty, scanned = []\<rparr>, s)))
       = scanned \<lparr>file_mtimes = Map.empty, scanned = []\<rparr>
         @ concat (map (\<lambda>k. take k (map (get_plugin_directory start_config) plugin_types)) ks)" ..
  have "set (concat (map (\<lambda>k. take k (map (get_plugin_directory start_config) plugin_types)) ks))
     \<subseteq> set (map (get_plugin_directory start_config) plugin_types)"
    by (auto dest: in_set_takeD)
  then show ?thesis using ks by (simp add: watch_files_def Let_def)
qed

text \<open>
  Claim C8, amended. The watcher computes the list of plugin directories once, when its task
  starts, from the configuration of that moment, and never again. Every pass of its loop,
  whatever the configuration and the file system have become, looks at the directories of
  that same list, in order: at all of them when no exception ends the pass, at a non-empty
  prefix of them otherwise. So the running watcher only ever looks at directories of the
  start list: a directory configured afterwards with \<^verbatim>\<open>set\<close> and \<^verbatim>\<open>save\<close> is not looked
  at. (The pause of five seconds between two passes is real time and is not modelled.)

  In the statement: before the first pass nothing has been looked at; the pass that follows
  any number of passes, in any world, appends a non-empty prefix of the start list, the
  whole list when \<open>watch_dirs\<close> reports no exception; and everything looked at is in the
  start list.
\<close>

theorem watcher_scans_start_directories:
  "scanned (fst (watch_files start_config [] s)) = []
   \<and> (\<exists>k. 0 < k \<and> k \<le> length plugin_types
        \<and> scanned (fst (watch_files start_config (worlds @ [(server_config, loader_config, env)]) s))
            = scanned (fst (watch_files start_config worlds s))
              @ take k (map (get_plugin_directory start_config) plugin_types)
        \<and> (snd (watch_dirs server_config loader_config env
                  (map (get_plugin_directory start_config) plugin_types)
                  (watch_files start_config worlds s)) = None
            \<longrightarrow> k = length plugin_types))
   \<and> set (scanned (fst (watch_files start_config worlds s)))
        \<subseteq> set (map (get_plugin_directory start_config) plugin_types)"
proof -
  let ?dirs = "map (get_plugin_directory start_config) plugin_types"
  let ?ws = "watch_files start_config worlds s"
  have a: "scanned (fst (watch_files start_config [] s)) = []"
    by (simp add: watch_files_def Let_def)
  have n: "?dirs \<noteq> []" by (simp add: plugin_types_def)
  from watch_cycle_pass [of ?dirs server_config loader_config env ?ws]
  obtain k where k: "k \<le> length ?dirs \<and> (?dirs \<noteq> [] \<longrightarrow> 0 < k)
     \<and> scanned (fst (watch_cycle ?dirs (server_config, loader_config, env) ?ws))
         = scanned (fst ?ws) @ take k ?dirs
     \<and> (snd (watch_dirs server_config loader_config env ?dirs ?ws) = None \<longrightarrow> k = length ?dirs)" ..
  have "0 < k \<and> k \<le> length plugin_types
        \<and> scanned (fst (watch_files start_config (worlds @ [(server_config, loader_config, env)]) s))
            = scanned (fst ?ws) @ take k ?dirs
        \<and> (snd (watch_dirs server_config loader_config env ?dirs ?ws) = None
            \<longrightarrow> k = length plugin_types)"
    using k n by (simp add: watch_files_snoc)
  then have b: "\<exists>k. 0 < k \<and> k \<le> length plugin_types
        \<and> scanned (fst (watch_files start_config (worlds @ [(server_config, loader_config, env)]) s))
            = scanned (fst ?ws) @ take k ?dirs
        \<and> (snd (watch_dirs server_config loader_config env ?dirs ?ws) = None
            \<longrightarrow> k = length plugin_types)"
    by (rule exI)
  from a b watch_files_subset [of start_config worlds s] show ?thesis by (intro conjI)
qed

lemma dirs_of_default: "map (get_plugin_directory default_config) plugin_types = default_dirs"
  by (simp add: plugin_types_def get_plugin_directory_def get_def default_config_def default_dirs_def)

lemma dirs_of_disabled: "map (get_plugin_directory disabled_config) plugin_types = default_dirs"
  by (simp add: plugin_types_def get_plugin_directory_def get_def disabled_config_def default_dirs_def)

lemma dirs_of_moved: "map (get_plugin_directory moved_config) plugin_types =
  [JStr ''plugins/resources'', JStr ''plugins/prompts'', JStr ''alt/tools'', JStr ''plugins/sampling'']"
  by (simp add: plugin_types_def get_plugin_directory_def get_def moved_config_def)

lemma set_moved: "set_config default_config ''plugins.directories.tools'' (JStr ''alt/tools'') = Inr moved_config"
  by (simp add: set_config_def default_config_def moved_config_def)

lemma watch_dirs_all_missing:
  "(\<And>d. d \<in> set dirs \<Longrightarrow> path_exists env d = Inr False) \<Longrightarrow>
   watch_dirs sc lc env dirs (w, s) = ((w\<lparr>scanned := scanned w @ dirs\<rparr>, s), None)"
proof (induction dirs arbitrary: w)
  case Nil
  show ?case by simp
next
  case (Cons d dirs)
  have "path_exists env d = Inr False" using Cons.prems by simp
  then have "watch_dirs sc lc env (d # dirs) (w, s)
      = watch_dirs sc lc env dirs (w\<lparr>scanned := scanned w @ [d]\<rparr>, s)"
    by (rule watch_dirs_missing)
  also have "\<dots> = ((w\<lparr>scanned := scanned w @ [d]\<rparr>\<lparr>scanned := scanned (w\<lparr>scanned := scanned w @ [d]\<rparr>) @ dirs\<rparr>, s), None)"
    using Cons.prems by (intro Cons.IH) simp
  finally show ?case by simp
qed

lemma cycle_empty_env:
  "watch_cycle default_dirs (c1, c2, empty_env) (w, s) = (w\<lparr>scanned := scanned w @ default_dirs\<rparr>, s)"
proof -
  have "watch_dirs c1 c2 empty_env default_dirs (w, s) = ((w\<lparr>scanned := scanned w @ default_dirs\<rparr>, s), None)"
    by (rule watch_dirs_all_missing) (simp add: empty_env_def)
  then show ?thesis by (simp add: watch_cycle_def)
qed

lemma cycle_alt_env:
  "watch_cycle default_dirs (c1, c2, alt_env) (w, s) = (w\<lparr>scanned := scanned w @ default_dirs\<rparr>, s)"
proof -
  have "watch_dirs c1 c2 alt_env default_dirs (w, s) = ((w\<lparr>scanned := scanned w @ default_dirs\<rparr>, s), None)"
    by (rule watch_dirs_all_missing) (auto simp: alt_env_def default_dirs_def)
  then show ?thesis by (simp add: watch_cycle_def)
qed

lemma moved_run:
  "watch_files default_config
     [(default_config, default_config, empty_env), (moved_config, moved_config, alt_env)] new_loader
   = (\<lparr>file_mtimes = Map.empty, scanned = default_dirs @ default_dirs\<rparr>, new_loader)"
  by (simp add: watch_files_def dirs_of_default cycle_empty_env cycle_alt_env)


text \<open>
  The watcher starts under the default configuration; by its first pass the tools directory
  has been set to \<^verbatim>\<open>alt/tools\<close>, where a valid plugin lies. No exception ends the pass, and
  it looks at the four default directories.
\<close>

theorem watcher_scans_start_directories_witness:
  "snd (watch_dirs moved_config moved_config alt_env
          (map (get_plugin_directory default_config) plugin_types)
          (watch_files default_config [] new_loader)) = None
   \<and> scanned (fst (watch_files default_config ([] @ [(moved_config, moved_config, alt_env)]) new_loader))
       = default_dirs"
proof -
  have w0: "watch_files default_config [] new_loader
      = (\<lparr>file_mtimes = Map.empty, scanned = []\<rparr>, new_loader)"
    by (simp add: watch_files_def Let_def)
  have "watch_dirs moved_config moved_config alt_env default_dirs
          (\<lparr>file_mtimes = Map.empty, scanned = []\<rparr>, new_loader)
      = ((\<lparr>file_mtimes = Map.empty, scanned = []\<rparr>\<lparr>scanned := scanned \<lparr>file_mtimes = Map.empty, scanned = []\<rparr> @ default_dirs\<rparr>, new_loader), None)"
    by (rule watch_dirs_all_missing) (auto simp: alt_env_def default_dirs_def)
  then have h: "snd (watch_dirs moved_config moved_config alt_env
          (map (get_plugin_directory default_config) plugin_types)
          (watch_files default_config [] new_loader)) = None"
    by (simp add: w0 dirs_of_default)
  have l: "length plugin_types = 4" by (simp add: plugin_types_def)
  have d: "length default_dirs = 4" by (simp add: default_dirs_def)
  from watcher_scans_start_directories [of default_config new_loader "[]" moved_config moved_config alt_env]
  obtain k where k: "0 < k \<and> k \<le> length plugin_types
        \<and> scanned (fst (watch_files default_config ([] @ [(moved_config, moved_config, alt_env)]) new_loader))
            = scanned (fst (watch_files default_config [] new_loader))
              @ take k (map (get_plugin_directory default_config) plugin_types)
        \<and> (snd (watch_dirs moved_config moved_config alt_env
                  (map (get_plugin_directory default_config) plugin_types)
                  (watch_files default_config [] new_loader)) = None
            \<longrightarrow> k = length plugin_types)"
    by (elim conjE exE) (rule that, intro conjI)
  have k4: "k = 4" using k h l by simp
  have "scanned (fst (watch_files default_config ([] @ [(moved_config, moved_config, alt_env)]) new_loader))
       = default_dirs"
    using k k4 d by (simp add: w0 dirs_of_default)
  with h show ?thesis by (rule conjI)
qed

lemma restart_scan_moved:
  "fst (load_all_plugins moved_config alt_env new_loader) =
     log WARNING (Dir_missing (JStr ''plugins/sampling''))
       (load_plugin_file alt_env
          (log INFO (Loading_type ''tools'')
             (log WARNING (Dir_missing (JStr ''plugins/prompts''))
                (log WARNING (Dir_missing (JStr ''plugins/resources'')) new_loader)))
          ''foo'' ''alt/tools/foo.py'' ''tools'')"
  by (simp add: load_all_plugins_def plugin_types_def load_plugins_by_type_def
      get_plugin_directory_def get_def moved_config_def alt_env_def is_plugin_file_def
      plugin_id_of_def is_plugin_disabled_def path_join_def startswith_def endswith_def
      suffix_to_prefix Let_def)

lemma restart_loads_moved:
  "loaded_plugins (fst (load_all_plugins moved_config alt_env new_loader)) ''foo'' = Some good_module"
  unfolding restart_scan_moved
  by (simp add: load_plugin_file_def mod_name_def alt_env_def new_loader_def good_module_def Let_def)

text \<open>
  Claim C8 as stated fails. The server starts with the default configuration and no plugin
  directory on disk, and the watcher makes a first pass. Then
  \<^verbatim>\<open>set("plugins.directories.tools", "alt/tools")\<close> changes the configuration, and
  \<^verbatim>\<open>alt/tools/foo.py\<close> holds a valid plugin. The second pass looks at the four default
  directories again and never at \<^verbatim>\<open>alt/tools\<close>; \<^verbatim>\<open>foo\<close> is not loaded. A startup scan with
  the changed configuration does load it.
\<close>

theorem watcher_directories_counterexample:
  "set_config default_config ''plugins.directories.tools'' (JStr ''alt/tools'') = Inr moved_config
   \<and> get_plugin_directory moved_config ''tools'' = JStr ''alt/tools''
   \<and> scanned (fst (watch_files default_config
        [(default_config, default_config, empty_env), (moved_config, moved_config, alt_env)] new_loader))
       = default_dirs @ default_dirs
   \<and> JStr ''alt/tools'' \<notin> set (scanned (fst (watch_files default_config
        [(default_config, default_config, empty_env), (moved_config, moved_config, alt_env)] new_loader)))
   \<and> loaded_plugins (snd (watch_files default_config
        [(default_config, default_config, empty_env), (moved_config, moved_config, alt_env)] new_loader)) ''foo''
       = None
   \<and> loaded_plugins (fst (load_all_plugins moved_config alt_env new_loader)) ''foo'' = Some good_module"
proof -
  have d: "get_plugin_directory moved_config ''tools'' = JStr ''alt/tools''"
    by (simp add: get_plugin_directory_def get_def moved_config_def)
  have n: "JStr ''alt/tools'' \<notin> set (default_dirs @ default_dirs)"
    by (simp add: default_dirs_def)
  have l: "loaded_plugins new_loader ''foo'' = None" by (simp add: new_loader_def)
  show ?thesis
    unfolding moved_run using set_moved d n restart_loads_moved l by simp
qed

text \<open>
  The changed configuration does reach the running watcher in one place: the type of a new
  file is looked up in the current configuration. After the tools directory has been set to
  \<^verbatim>\<open>alt/tools\<close>, a pass still lists \<^verbatim>\<open>plugins/tools\<close> and records the modification time of
  a new \<^verbatim>\<open>foo.py\<close> there, but finds no type for the directory and does not load the file.
\<close>

lemma type_of_directory_moved:
  "type_of_directory moved_config (JStr ''plugins/tools'') plugin_types = None"
  by (simp add: plugin_types_def get_plugin_directory_def get_def moved_config_def)

lemma watch_names_moved:
  assumes "file_mtimes w ''plugins/tools/foo.py'' = None"
  shows "watch_names moved_config moved_config (tools_env m) (JStr ''plugins/tools'') [''foo.py'']
     (w, new_loader)
   = ((w\<lparr>file_mtimes := (file_mtimes w)(''plugins/tools/foo.py'' \<mapsto> 1)\<rparr>, new_loader), None)"
proof -
  have j: "path_join (JStr ''plugins/tools'') ''foo.py'' = Inr ''plugins/tools/foo.py''"
    by (simp add: path_join_def startswith_def endswith_def suffix_to_prefix)
  have g: "getmtime (tools_env m) ''plugins/tools/foo.py'' = Inr 1" by (simp add: tools_env_def)
  have p: "plugin_id_of ''foo.py'' = ''foo''" by (simp add: plugin_id_of_def)
  have l: "loaded_plugins new_loader ''foo'' = None" by (simp add: new_loader_def)
  have f: "is_plugin_file ''foo.py''"
    by (simp add: is_plugin_file_def startswith_def endswith_def suffix_to_prefix)
  have wf: "watch_file moved_config moved_config (tools_env m) (JStr ''plugins/tools'') ''foo.py'' (w, new_loader)
     = ((w\<lparr>file_mtimes := (file_mtimes w)(''plugins/tools/foo.py'' \<mapsto> 1)\<rparr>, new_loader), None)"
    using assms by (simp add: watch_file_def j g p l type_of_directory_moved Let_def)
  show ?thesis using f by (simp add: wf)
qed

lemma moved_new_file_not_loaded:
  "watch_files default_config [(moved_config, moved_config, tools_env m)] new_loader
   = (\<lparr>file_mtimes = [''plugins/tools/foo.py'' \<mapsto> 1], scanned = default_dirs\<rparr>, new_loader)"
proof -
  let ?E = "tools_env m"
  let ?w0 = "\<lparr>file_mtimes = Map.empty, scanned = []\<rparr>"
  let ?w1 = "?w0\<lparr>scanned := scanned ?w0 @ [JStr ''plugins/resources'']\<rparr>"
  let ?w2 = "?w1\<lparr>scanned := scanned ?w1 @ [JStr ''plugins/prompts'']\<rparr>"
  let ?w3 = "?w2\<lparr>scanned := scanned ?w2 @ [JStr ''plugins/tools'']\<rparr>"
  let ?w4 = "?w3\<lparr>file_mtimes := (file_mtimes ?w3)(''plugins/tools/foo.py'' \<mapsto> 1)\<rparr>"
  have e1: "path_exists ?E (JStr ''plugins/resources'') = Inr False" by (simp add: tools_env_def)
  have e2: "path_exists ?E (JStr ''plugins/prompts'') = Inr False" by (simp add: tools_env_def)
  have e3: "path_exists ?E (JStr ''plugins/tools'') = Inr True" by (simp add: tools_env_def)
  have e4: "path_exists ?E (JStr ''plugins/sampling'') = Inr False" by (simp add: tools_env_def)
  have l3: "listdir ?E (JStr ''plugins/tools'') = Inr [''foo.py'']" by (simp add: tools_env_def)
  have n3: "watch_names moved_config moved_config ?E (JStr ''plugins/tools'') [''foo.py''] (?w3, new_loader)
     = ((?w4, new_loader), None)"
    by (rule watch_names_moved) simp
  have "watch_dirs moved_config moved_config ?E default_dirs (?w0, new_loader)
      = watch_dirs moved_config moved_config ?E
          [JStr ''plugins/prompts'', JStr ''plugins/tools'', JStr ''plugins/sampling''] (?w1, new_loader)"
    unfolding default_dirs_def by (rule watch_dirs_missing [OF e1])
  also have "\<dots> = watch_dirs moved_config moved_config ?E
          [JStr ''plugins/tools'', JStr ''plugins/sampling''] (?w2, new_loader)"
    by (rule watch_dirs_missing [OF e2])
  also have "\<dots> = watch_dirs moved_config moved_config ?E [JStr ''plugins/sampling''] (?w4, new_loader)"
    by (rule watch_dirs_names_ok [OF e3 l3 n3])
  also have "\<dots> = watch_dirs moved_config moved_config ?E []
       (?w4\<lparr>scanned := scanned ?w4 @ [JStr ''plugins/sampling'']\<rparr>, new_loader)"
    by (rule watch_dirs_missing [OF e4])
  finally have "watch_dirs moved_config moved_config ?E default_dirs (?w0, new_loader)
      = ((?w4\<lparr>scanned := scanned ?w4 @ [JStr ''plugins/sampling'']\<rparr>, new_loader), None)"
    by simp
  then have "watch_cycle default_dirs (moved_config, moved_config, ?E) (?w0, new_loader)
      = (?w4\<lparr>scanned := scanned ?w4 @ [JStr ''plugins/sampling'']\<rparr>, new_loader)"
    by (simp add: watch_cycle_def)
  then show ?thesis
    by (simp add: watch_files_def dirs_of_default default_dirs_def)
qed

lemma disabled_foo: "is_plugin_disabled disabled_config ''foo'' = Inr True"
  by (simp add: is_plugin_disabled_def get_def disabled_config_def)

lemma scan_disabled:
  "fst (load_all_plugins disabled_config (tools_env m) new_loader) =
     log WARNING (Dir_missing (JStr ''plugins/sampling''))
       (log INFO (Skip_disabled ''foo'')
          (log INFO (Loading_type ''tools'')
             (log WARNING (Dir_missing (JStr ''plugins/prompts''))
                (log WARNING (Dir_missing (JStr ''plugins/resources'')) new_loader))))"
  by (simp add: load_all_plugins_def plugin_types_def load_plugins_by_type_def
      get_plugin_directory_def get_def disabled_config_def tools_env_def is_plugin_file_def
      plugin_id_of_def is_plugin_disabled_def path_join_def startswith_def endswith_def
      suffix_to_prefix Let_def)

lemma type_of_directory_disabled:
  "type_of_directory disabled_config (JStr ''plugins/tools'') plugin_types = Some ''tools''"
  by (simp add: plugin_types_def get_plugin_directory_def get_def disabled_config_def)

lemma watch_file_disabled:
  assumes "file_mtimes w ''plugins/tools/foo.py'' = None"
  shows "watch_file disabled_config disabled_config (tools_env m) (JStr ''plugins/tools'') ''foo.py''
     (w, new_loader)
   = ((w\<lparr>file_mtimes := (file_mtimes w)(''plugins/tools/foo.py'' \<mapsto> 1)\<rparr>,
       load_plugin_file (tools_env m) (log INFO (New_plugin ''foo'' ''tools'') new_loader)
         ''foo'' ''plugins/tools/foo.py'' ''tools''), None)"
proof -
  have j: "path_join (JStr ''plugins/tools'') ''foo.py'' = Inr ''plugins/tools/foo.py''"
    by (simp add: path_join_def startswith_def endswith_def suffix_to_prefix)
  have g: "getmtime (tools_env m) ''plugins/tools/foo.py'' = Inr 1" by (simp add: tools_env_def)
  have p: "plugin_id_of ''foo.py'' = ''foo''" by (simp add: plugin_id_of_def)
  have l: "loaded_plugins new_loader ''foo'' = None" by (simp add: new_loader_def)
  show ?thesis
    using assms by (simp add: watch_file_def j g p l type_of_directory_disabled Let_def)
qed

lemma watch_names_disabled:
  assumes "file_mtimes w ''plugins/tools/foo.py'' = None"
  shows "watch_names disabled_config disabled_config (tools_env m) (JStr ''plugins/tools'') [''foo.py'']
     (w, new_loader)
   = ((w\<lparr>file_mtimes := (file_mtimes w)(''plugins/tools/foo.py'' \<mapsto> 1)\<rparr>,
       load_plugin_file (tools_env m) (log INFO (New_plugin ''foo'' ''tools'') new_loader)
         ''foo'' ''plugins/tools/foo.py'' ''tools''), None)"
proof -
  have f: "is_plugin_file ''foo.py''"
    by (simp add: is_plugin_file_def startswith_def endswith_def suffix_to_prefix)
  show ?thesis using f by (simp add: watch_file_disabled [OF assms])
qed

lemma watcher_run_disabled:
  "snd (watch_files disabled_config [(disabled_config, disabled_config, tools_env m)] new_loader)
   = load_plugin_file (tools_env m) (log INFO (New_plugin ''foo'' ''tools'') new_loader)
         ''foo'' ''plugins/tools/foo.py'' ''tools''"
proof -
  let ?E = "tools_env m"
  let ?w0 = "\<lparr>file_mtimes = Map.empty, scanned = []\<rparr>"
  let ?w1 = "?w0\<lparr>scanned := scanned ?w0 @ [JStr ''plugins/resources'']\<rparr>"
  let ?w2 = "?w1\<lparr>scanned := scanned ?w1 @ [JStr ''plugins/prompts'']\<rparr>"
  let ?w3 = "?w2\<lparr>scanned := scanned ?w2 @ [JStr ''plugins/tools'']\<rparr>"
  let ?w4 = "?w3\<lparr>file_mtimes := (file_mtimes ?w3)(''plugins/tools/foo.py'' \<mapsto> 1)\<rparr>"
  let ?s = "load_plugin_file ?E (log INFO (New_plugin ''foo'' ''tools'') new_loader)
         ''foo'' ''plugins/tools/foo.py'' ''tools''"
  have e1: "path_exists ?E (JStr ''plugins/resources'') = Inr False" by (simp add: tools_env_def)
  have e2: "path_exists ?E (JStr ''plugins/prompts'') = Inr False" by (simp add: tools_env_def)
  have e3: "path_exists ?E (JStr ''plugins/tools'') = Inr True" by (simp add: tools_env_def)
  have e4: "path_exists ?E (JStr ''plugins/sampling'') = Inr False" by (simp add: tools_env_def)
  have l3: "listdir ?E (JStr ''plugins/tools'') = Inr [''foo.py'']" by (simp add: tools_env_def)
  have n3: "watch_names disabled_config disabled_config ?E (JStr ''plugins/tools'') [''foo.py''] (?w3, new_loader)
     = ((?w4, ?s), None)"
    by (rule watch_names_disabled) simp
  have "watch_dirs disabled_config disabled_config ?E default_dirs (?w0, new_loader)
      = watch_dirs disabled_config disabled_config ?E
          [JStr ''plugins/prompts'', JStr ''plugins/tools'', JStr ''plugins/sampling''] (?w1, new_loader)"
    unfolding default_dirs_def by (rule watch_dirs_missing [OF e1])
  also have "\<dots> = watch_dirs disabled_config disabled_config ?E
          [JStr ''plugins/tools'', JStr ''plugins/sampling''] (?w2, new_loader)"
    by (rule watch_dirs_missing [OF e2])
  also have "\<dots> = watch_dirs disabled_config disabled_config ?E [JStr ''plugins/sampling''] (?w4, ?s)"
    by (rule watch_dirs_names_ok [OF e3 l3 n3])
  also have "\<dots> = watch_dirs disabled_config disabled_config ?E []
       (?w4\<lparr>scanned := scanned ?w4 @ [JStr ''plugins/sampling'']\<rparr>, ?s)"
    by (rule watch_dirs_missing [OF e4])
  finally have "watch_dirs disabled_config disabled_config ?E default_dirs (?w0, new_loader)
      = ((?w4\<lparr>scanned := scanned ?w4 @ [JStr ''plugins/sampling'']\<rparr>, ?s), None)"
    by simp
  then have "watch_cycle default_dirs (disabled_config, disabled_config, ?E) (?w0, new_loader)
      = (?w4\<lparr>scanned := scanned ?w4 @ [JStr ''plugins/sampling'']\<rparr>, ?s)"
    by (simp add: watch_cycle_def)
  then show ?thesis
    by (simp add: watch_files_def dirs_of_disabled)
qed

lemma type_of_path_disabled:
  "type_of_path disabled_config ''plugins/tools/foo.py'' plugin_types = Inr (Some ''tools'')"
  by (simp add: plugin_types_def get_plugin_directory_def get_def disabled_config_def startswith_def)

text \<open>
  Claim C1 fails on the watcher and on \<^verbatim>\<open>reload_plugin\<close>. \<^verbatim>\<open>plugins.disabled\<close> is
  \<^verbatim>\<open>["foo"]\<close> and \<^verbatim>\<open>plugins/tools/foo.py\<close> holds a valid plugin. The startup scan
  (\<^verbatim>\<open>load_plugins_by_type\<close>, which asks \<^verbatim>\<open>is_plugin_disabled\<close>) skips \<^verbatim>\<open>foo\<close> and calls
  no \<^verbatim>\<open>setup\<close>. The first pass of the watcher finds the file new, calls
  \<^verbatim>\<open>_load_plugin_file\<close> without asking, and \<^verbatim>\<open>foo\<close> is registered and its \<^verbatim>\<open>setup\<close> has
  run. Likewise \<^verbatim>\<open>reload_plugin\<close> of a \<^verbatim>\<open>foo\<close> that was loaded before it was disabled
  registers the new module and runs its \<^verbatim>\<open>setup\<close>. The last part of the claim holds on
  this input: with \<^verbatim>\<open>foo\<close> absent from the disabled list the scan loads it.
\<close>

theorem disabled_plugin_loaded_by_watcher:
  "is_plugin_disabled disabled_config ''foo'' = Inr True
   \<and> loaded_plugins (fst (load_all_plugins disabled_config (tools_env good_module) new_loader)) ''foo'' = None
   \<and> calls (fst (load_all_plugins disabled_config (tools_env good_module) new_loader)) = []
   \<and> loaded_plugins (snd (watch_files disabled_config
        [(disabled_config, disabled_config, tools_env good_module)] new_loader)) ''foo'' = Some good_module
   \<and> calls (snd (watch_files disabled_config
        [(disabled_config, disabled_config, tools_env good_module)] new_loader))
       = [Setup_call ''foo'' good_module]
   \<and> loaded_plugins (fst (reload_plugin disabled_config (tools_env good_module2) (foo_loaded good_module) ''foo''))
        ''foo'' = Some good_module2
   \<and> calls (fst (reload_plugin disabled_config (tools_env good_module2) (foo_loaded good_module) ''foo''))
       = [Setup_call ''foo'' good_module, Setup_call ''foo'' good_module2]
   \<and> is_plugin_disabled default_config ''foo'' = Inr False
   \<and> loaded_plugins (fst (load_all_plugins default_config (tools_env good_module) new_loader)) ''foo''
       = Some good_module"
proof -
  have scan: "loaded_plugins (fst (load_all_plugins disabled_config (tools_env good_module) new_loader)) ''foo'' = None
     \<and> calls (fst (load_all_plugins disabled_config (tools_env good_module) new_loader)) = []"
    unfolding scan_disabled by (simp add: new_loader_def)
  have i: "import_file (tools_env good_module) ''plugins/tools/foo.py'' = Exec_ok good_module"
    "mod_setup good_module = Some Returns"
    by (simp_all add: tools_env_def good_module_def)
  have n: "mod_name ''tools'' ''foo'' \<notin> loaded_modules (log INFO (New_plugin ''foo'' ''tools'') new_loader)"
    by (simp add: new_loader_def)
  have watch: "loaded_plugins (snd (watch_files disabled_config
        [(disabled_config, disabled_config, tools_env good_module)] new_loader)) ''foo'' = Some good_module
     \<and> calls (snd (watch_files disabled_config
        [(disabled_config, disabled_config, tools_env good_module)] new_loader))
       = [Setup_call ''foo'' good_module]"
    unfolding watcher_run_disabled
    using load_success(1,5) [OF i n] by (simp add: new_loader_def)
  have s: "mod_setup good_module = Some Returns" by (simp add: good_module_def)
  have l: "loaded_plugins (foo_loaded good_module) ''foo'' = Some good_module"
    "plugin_paths (foo_loaded good_module) ''foo'' = Some ''plugins/tools/foo.py''"
    by (simp_all add: foo_loaded_fields [OF s])
  have i2: "import_file (tools_env good_module2) ''plugins/tools/foo.py'' = Exec_ok good_module2"
    "mod_setup good_module2 = Some Returns"
    by (simp_all add: tools_env_def good_module2_def)
  have n2: "mod_name ''tools'' ''foo'' \<notin> loaded_modules
     ((foo_loaded good_module)\<lparr>sys_modules := (sys_modules (foo_loaded good_module))(mod_name ''tools'' ''foo'' := None),
              loaded_plugins := (loaded_plugins (foo_loaded good_module))(''foo'' := None),
              loaded_modules := loaded_modules (foo_loaded good_module) - {mod_name ''tools'' ''foo''}\<rparr>)"
    by simp
  have reload: "loaded_plugins (fst (reload_plugin disabled_config (tools_env good_module2) (foo_loaded good_module) ''foo''))
        ''foo'' = Some good_module2
     \<and> calls (fst (reload_plugin disabled_config (tools_env good_module2) (foo_loaded good_module) ''foo''))
       = [Setup_call ''foo'' good_module, Setup_call ''foo'' good_module2]"
    unfolding reload_resolved [OF l type_of_path_disabled]
    using load_success(1,5) [OF i2 n2] by (simp add: foo_loaded_fields [OF s])
  have e: "is_plugin_disabled default_config ''foo'' = Inr False"
    by (simp add: is_plugin_disabled_def get_def default_config_def)
  have f: "loaded_plugins (fst (load_all_plugins default_config (tools_env good_module) new_loader)) ''foo''
       = Some good_module"
    using l(1) by (simp add: foo_loaded_def)
  from disabled_foo scan watch reload e f show ?thesis by simp
qed

end
